theory Spec2Isabelle
  imports Main "HOL-Library.Sublist" "HOL-Library.AList"
begin

section \<open>The create-app scaffolder\<close>

text \<open>
  A shallow embedding of the scaffolding command of the repository
  (\<^verbatim>\<open>src/unnamed/part_000\<close>): \<^verbatim>\<open>createFerodApp\<close>, \<^verbatim>\<open>getAnswers\<close>,
  \<^verbatim>\<open>getUserPackageManager\<close>, \<^verbatim>\<open>scaffoldProject\<close> and \<^verbatim>\<open>createPackageJson\<close>.  The file system, the console
  and the list of spawned shell commands are an explicit state; every call that can
  throw returns a sum whose left injection is the error.
\<close>

subsection \<open>Answers and options\<close>

text \<open>The \<^verbatim>\<open>databases\<close> tuple and the type \<^verbatim>\<open>DatabaseType\<close> of its members.\<close>

datatype DatabaseType = MySQL | MongoDB | SQLite | PostgreSQL | SQLServer | CockroachDB

fun databaseName :: "DatabaseType \<Rightarrow> string" where
  "databaseName MySQL = ''MySQL''"
| "databaseName MongoDB = ''MongoDB''"
| "databaseName SQLite = ''SQLite''"
| "databaseName PostgreSQL = ''PostgreSQL''"
| "databaseName SQLServer = ''SQLServer''"
| "databaseName CockroachDB = ''CockroachDB''"

datatype PackageManager = Npm | Yarn | Pnpm

fun packageManagerName :: "PackageManager \<Rightarrow> string" where
  "packageManagerName Npm = ''npm''"
| "packageManagerName Yarn = ''yarn''"
| "packageManagerName Pnpm = ''pnpm''"

text \<open>
  A resolved path is the list of its components below the root, none of them empty,
  \<^verbatim>\<open>.\<close> or \<^verbatim>\<open>..\<close>.  \<^verbatim>\<open>resolve(dir, rel)\<close> of the POSIX \<^verbatim>\<open>path\<close> module, for a
  directory that is resolved already: an argument that begins with \<^verbatim>\<open>/\<close> starts from
  the root, any other from the directory; then a component \<^verbatim>\<open>.\<close> stays, a component
  \<^verbatim>\<open>..\<close> goes to the parent (the root is its own parent), any other goes down.
\<close>

type_synonym path = "string list"

fun segments_from :: "string \<Rightarrow> string \<Rightarrow> string list" where
  "segments_from cur [] = (if cur = [] then [] else [cur])"
| "segments_from cur (c # cs) =
     (if c = CHR ''/'' then (if cur = [] then [] else [cur]) @ segments_from [] cs
      else segments_from (cur @ [c]) cs)"

definition segments :: "string \<Rightarrow> string list" where
  "segments s = segments_from [] s"

definition is_absolute :: "string \<Rightarrow> bool" where
  "is_absolute rel = (case rel of [] \<Rightarrow> False | c # cs \<Rightarrow> c = CHR ''/'')"

definition step :: "path \<Rightarrow> string \<Rightarrow> path" where
  "step p seg = (if seg = ''.'' then p else if seg = ''..'' then butlast p else p @ [seg])"

definition resolve :: "path \<Rightarrow> string \<Rightarrow> path" where
  "resolve dir rel = foldl step (if is_absolute rel then [] else dir) (segments rel)"

text \<open>The text of a resolved path, as a template literal prints it.\<close>

definition path_string :: "path \<Rightarrow> string" where
  "path_string p = (if p = [] then ''/'' else concat (map (\<lambda>s. CHR ''/'' # s) p))"

text \<open>
  The answers as \<^verbatim>\<open>getAnswers\<close> returns them.  The interface \<^verbatim>\<open>Answers\<close> declares a
  name, but the prompt leaves out the answer of a question that it does not ask, so the
  name may be \<^verbatim>\<open>undefined\<close>.  A boolean answer that is left out is \<^verbatim>\<open>undefined\<close> as
  well; every use of one is a test of its truth, so it stands as \<open>False\<close>.
\<close>

record Answers =
  name :: "string option"
  gitRepo :: bool
  install :: bool
  prisma :: bool
  databaseType :: "DatabaseType option"
  databaseUri :: "string option"
  typescript :: bool
  helpCommand :: bool
  dashboard :: bool
  eslintAndPrettier :: bool

record ScaffoldOptions = Answers +
  packageManager :: PackageManager
  projectDirectory :: path

text \<open>
  Modelled from the spec: the type \<^verbatim>\<open>CreateAppOptions\<close>, which is declared in
  \<^verbatim>\<open>../types\<close> and is not part of the sources.  The command line takes an
  optional project name and flags to skip the prompts, the git repository and the
  installation; \<^verbatim>\<open>getAnswers\<close> reads them as \<^verbatim>\<open>options.name\<close>,
  \<^verbatim>\<open>options.flags.yes\<close>, \<^verbatim>\<open>options.flags.noGit\<close> and \<^verbatim>\<open>options.flags.noInstall\<close>, each of
  which may be \<^verbatim>\<open>undefined\<close>.
\<close>

record Flags =
  yes :: "bool option"
  noGit :: "bool option"
  noInstall :: "bool option"

record CreateAppOptions =
  opt_name :: "string option"
  flags :: Flags

text \<open>The nullish coalescing operator \<^verbatim>\<open>a ?? b\<close> on an optional value.\<close>

definition nullish_or :: "'a option \<Rightarrow> 'a \<Rightarrow> 'a" where
  "nullish_or a b = (case a of None \<Rightarrow> b | Some v \<Rightarrow> v)"

text \<open>
  The prompt library is an external collaborator.  Of it the model keeps that a
  question is asked exactly when its \<^verbatim>\<open>when\<close> holds, and that the result holds the
  replies to the questions asked, under their names, and nothing for the others.  What
  the user replies to each question, should it be asked, is a record of its own (a
  reply left empty is the default of the question).
\<close>

record Replies =
  reply_name :: string
  reply_gitRepo :: bool
  reply_install :: bool
  reply_prisma :: bool
  reply_databaseType :: DatabaseType
  reply_databaseUri :: string
  reply_typescript :: bool
  reply_helpCommand :: bool
  reply_dashboard :: bool
  reply_eslintAndPrettier :: bool

text \<open>
  \<^verbatim>\<open>getAnswers\<close>.  In the interactive branch the prompt library asks the questions
  whose \<^verbatim>\<open>when\<close> holds, in their order, and returns the replies to those alone: the
  name only when none came with the command line, \<^verbatim>\<open>gitRepo\<close> and \<^verbatim>\<open>install\<close> only
  when their flag is absent, the database type and URI only when \<^verbatim>\<open>prisma\<close> was
  affirmed.  (The other conditions, \<^verbatim>\<open>!options.flags.yes\<close>, hold throughout this
  branch.)
\<close>

definition getAnswers :: "Replies \<Rightarrow> CreateAppOptions \<Rightarrow> Answers" where
  "getAnswers user options =
     (if yes (flags options) = Some True then
        \<lparr> name = Some (nullish_or (opt_name options) ''my-app''),
          gitRepo = (noGit (flags options) = None),
          install = (noInstall (flags options) = None),
          prisma = True,
          databaseType = Some MongoDB,
          databaseUri = Some (''mongodb://localhost:27017/'' @ nullish_or (opt_name options) ''my-app''),
          typescript = True,
          helpCommand = True,
          dashboard = True,
          eslintAndPrettier = True \<rparr>
      else
        \<lparr> name = (if opt_name options = None then Some (reply_name user) else None),
          gitRepo = (noGit (flags options) = None \<and> reply_gitRepo user),
          install = (noInstall (flags options) = None \<and> reply_install user),
          prisma = reply_prisma user,
          databaseType = (if reply_prisma user then Some (reply_databaseType user) else None),
          databaseUri = (if reply_prisma user then Some (reply_databaseUri user) else None),
          typescript = reply_typescript user,
          helpCommand = reply_helpCommand user,
          dashboard = reply_dashboard user,
          eslintAndPrettier = reply_eslintAndPrettier user \<rparr>)"

subsection \<open>Package-manager detection\<close>

text \<open>\<^verbatim>\<open>String.prototype.includes\<close>: the argument occurs as a contiguous run.\<close>

fun starts_with :: "string \<Rightarrow> string \<Rightarrow> bool" where
  "starts_with s [] = True"
| "starts_with [] (c # cs) = False"
| "starts_with (d # ds) (c # cs) = (d = c \<and> starts_with ds cs)"

fun str_includes :: "string \<Rightarrow> string \<Rightarrow> bool" where
  "str_includes [] sub = (sub = [])"
| "str_includes (c # cs) sub = (starts_with (c # cs) sub \<or> str_includes cs sub)"

text \<open>
  \<^verbatim>\<open>getUserPackageManager\<close>; the argument is the value of the environment variable
  \<^verbatim>\<open>npm_config_user_agent\<close>, \<open>None\<close> when it is not set.
\<close>

definition getUserPackageManager :: "string option \<Rightarrow> PackageManager" where
  "getUserPackageManager userAgent =
     (case userAgent of
        None \<Rightarrow> Npm
      | Some ua \<Rightarrow>
          if str_includes ua ''yarn'' then Yarn
          else if str_includes ua ''pnpm'' then Pnpm
          else Npm)"

subsection \<open>The Template Set\<close>

text \<open>
  A JavaScript \<^verbatim>\<open>Set\<close> of strings keeps insertion order and ignores the insertion
  of a member it already has.
\<close>

definition set_add :: "string \<Rightarrow> string list \<Rightarrow> string list" where
  "set_add x xs = (if x \<in> set xs then xs else xs @ [x])"

definition new_Set :: "string list \<Rightarrow> string list" where
  "new_Set xs = fold set_add xs []"

definition basePath :: "ScaffoldOptions \<Rightarrow> string" where
  "basePath options = (if typescript options then ''base-ts'' else ''base-js'')"

text \<open>The first statements of \<^verbatim>\<open>scaffoldProject\<close>: the set \<^verbatim>\<open>templates\<close>.\<close>

definition templates :: "ScaffoldOptions \<Rightarrow> string list" where
  "templates options =
     (let t0 = new_Set [''base'', if typescript options then ''base-ts'' else ''base-js''];
          t1 = (if prisma options then set_add ''prisma'' t0 else t0);
          t2 = (if eslintAndPrettier options then set_add ''eslint-prettier'' t1 else t1)
      in t2)"

subsection \<open>Errors\<close>

text \<open>
  What a call can throw: the file-system error codes of the runtime, the
  \<^verbatim>\<open>SyntaxError\<close> of a manifest that is not JSON, the \<^verbatim>\<open>TypeError\<close> of a property
  read on \<^verbatim>\<open>null\<close> or of a path that is \<^verbatim>\<open>undefined\<close>, and the refusal of the copy
  utility to overwrite a directory with a file, a file with a directory, or a
  directory with itself or into itself.
\<close>

datatype error = ENOENT | ENOTDIR | EEXIST | EISDIR | SyntaxError | TypeError | CopyError

definition bind_err :: "error + 'a \<Rightarrow> ('a \<Rightarrow> error + 'b) \<Rightarrow> error + 'b" where
  "bind_err r f = (case r of Inl e \<Rightarrow> Inl e | Inr v \<Rightarrow> f v)"

subsection \<open>JSON values\<close>

text \<open>
  A parsed JSON document.  An object is the list of its properties in insertion
  order, each key once (the place that JavaScript gives to keys that are array indices
  is not modelled: nothing here depends on the order).  The scaffolder never inspects
  a number, so integers stand for the number literals.
\<close>

datatype json =
    JNull
  | JBool bool
  | JNum int
  | JStr string
  | JArr "json list"
  | JObj "(string \<times> json) list"

fun string_of_nat :: "nat \<Rightarrow> string" where
  "string_of_nat n =
     (if n < 10 then [char_of (48 + n)]
      else string_of_nat (n div 10) @ [char_of (48 + n mod 10)])"

declare string_of_nat.simps [simp del]

text \<open>
  The own enumerable string-keyed properties of a value, as \<^verbatim>\<open>Object.entries\<close> and
  the spread \<^verbatim>\<open>{...v}\<close> list them: the properties of an object, the indices of an
  array or of a string, nothing for a number, a boolean or (in a spread)
  \<^verbatim>\<open>null\<close>.
\<close>

fun own_entries :: "json \<Rightarrow> (string \<times> json) list" where
  "own_entries (JObj kvs) = kvs"
| "own_entries (JArr xs) = zip (map string_of_nat [0..<length xs]) xs"
| "own_entries (JStr s) = zip (map string_of_nat [0..<length s]) (map (\<lambda>c. JStr [c]) s)"
| "own_entries JNull = []"
| "own_entries (JBool b) = []"
| "own_entries (JNum n) = []"

text \<open>
  \<^verbatim>\<open>packageJson.dependencies\<close> and its two siblings: a property read throws on
  \<^verbatim>\<open>null\<close>, finds the property of an object, and is \<^verbatim>\<open>undefined\<close> on any other value
  (none of the three names is a property of an array, a string, a number or a
  boolean).
\<close>

definition get_field :: "json \<Rightarrow> string \<Rightarrow> error + json option" where
  "get_field j k =
     (case j of
        JNull \<Rightarrow> Inl TypeError
      | JObj kvs \<Rightarrow> Inr (map_of kvs k)
      | _ \<Rightarrow> Inr None)"

text \<open>\<^verbatim>\<open>Object.entries(v ?? {})\<close> for a property \<open>v\<close> that may be \<^verbatim>\<open>undefined\<close>.\<close>

definition entries_or_empty :: "json option \<Rightarrow> (string \<times> json) list" where
  "entries_or_empty v =
     (case v of
        None \<Rightarrow> []
      | Some JNull \<Rightarrow> []
      | Some j \<Rightarrow> own_entries j)"

text \<open>
  \<^verbatim>\<open>Map.prototype.set\<close>, and the assignment of a property in an object literal: the
  value of a key that is present is replaced where it stands, a new key goes to the
  end.
\<close>

definition map_set :: "string \<Rightarrow> json \<Rightarrow> (string \<times> json) list \<Rightarrow> (string \<times> json) list" where
  "map_set k v m = AList.update k v m"

text \<open>The loop \<^verbatim>\<open>for (const [name, version] of entries) m.set(name, version)\<close>.\<close>

definition set_all :: "(string \<times> json) list \<Rightarrow> (string \<times> json) list \<Rightarrow> (string \<times> json) list" where
  "set_all entries m = fold (\<lambda>(k, v). map_set k v) entries m"

subsection \<open>The file system\<close>

text \<open>
  A file holds either the serialisation of a JSON value, which \<^verbatim>\<open>readJSONSync\<close>
  parses back and \<^verbatim>\<open>writeJSONSync\<close> produces, or any other text.  A directory is the
  list of its entries.  The whole file system is the root directory.
\<close>

datatype content = Text string | Json json

datatype node = File content | Dir "(string \<times> node) list"

fun lookup :: "node \<Rightarrow> path \<Rightarrow> node option" where
  "lookup n [] = Some n"
| "lookup (File c) (s # p) = None"
| "lookup (Dir es) (s # p) = (case map_of es s of None \<Rightarrow> None | Some c \<Rightarrow> lookup c p)"

text \<open>
  \<open>put mk p v old\<close> stores the node \<open>v\<close> at the path \<open>p\<close> below the node \<open>old\<close>.
  A missing directory on the way is \<^verbatim>\<open>ENOENT\<close>, or is created when \<open>mk\<close> is set (as
  \<^verbatim>\<open>mkdirsSync\<close> does for the parent of a copy's destination); a file on the way is
  \<^verbatim>\<open>ENOTDIR\<close>.
\<close>

fun put :: "bool \<Rightarrow> path \<Rightarrow> node \<Rightarrow> node option \<Rightarrow> error + node" where
  "put mk [] v old = Inr v"
| "put mk (s # p) v None =
     (if mk then (case put mk p v None of Inl e \<Rightarrow> Inl e | Inr c \<Rightarrow> Inr (Dir [(s, c)]))
      else Inl ENOENT)"
| "put mk (s # p) v (Some (File c)) = Inl ENOTDIR"
| "put mk (s # p) v (Some (Dir es)) =
     (case put mk p v (map_of es s) of
        Inl e \<Rightarrow> Inl e
      | Inr c \<Rightarrow> Inr (Dir (AList.update s c es)))"

definition existsSync :: "node \<Rightarrow> path \<Rightarrow> bool" where
  "existsSync root p = (lookup root p \<noteq> None)"

definition readdirSync :: "node \<Rightarrow> path \<Rightarrow> error + string list" where
  "readdirSync root p =
     (case lookup root p of
        None \<Rightarrow> Inl ENOENT
      | Some (File c) \<Rightarrow> Inl ENOTDIR
      | Some (Dir es) \<Rightarrow> Inr (map fst es))"

definition mkdirSync :: "path \<Rightarrow> node \<Rightarrow> error + node" where
  "mkdirSync p root =
     (case lookup root p of
        Some n \<Rightarrow> Inl EEXIST
      | None \<Rightarrow> put False p (Dir []) (Some root))"

definition readJSONSync :: "node \<Rightarrow> path \<Rightarrow> error + json" where
  "readJSONSync root p =
     (case lookup root p of
        None \<Rightarrow> Inl ENOENT
      | Some (Dir es) \<Rightarrow> Inl EISDIR
      | Some (File (Text s)) \<Rightarrow> Inl SyntaxError
      | Some (File (Json j)) \<Rightarrow> Inr j)"

definition writeJSONSync :: "path \<Rightarrow> json \<Rightarrow> node \<Rightarrow> error + node" where
  "writeJSONSync p j root =
     (case lookup root p of
        Some (Dir es) \<Rightarrow> Inl EISDIR
      | _ \<Rightarrow> put False p (File (Json j)) (Some root))"

definition copyFileSync :: "path \<Rightarrow> path \<Rightarrow> node \<Rightarrow> error + node" where
  "copyFileSync src dest root =
     (case lookup root src of
        None \<Rightarrow> Inl ENOENT
      | Some (Dir es) \<Rightarrow> Inl EISDIR
      | Some (File c) \<Rightarrow>
          (case lookup root dest of
             Some (Dir ds) \<Rightarrow> Inl EISDIR
           | _ \<Rightarrow> put False dest (File c) (Some root)))"

text \<open>
  The copy utility \<^verbatim>\<open>copySync\<close> of the file-system library, with its default
  options: a file replaces a file, the entries of a directory are copied one by one
  into the directory at the destination, which is created when it is missing, and a
  file never replaces a directory nor a directory a file.  \<open>copy_node s d\<close> is the
  node at the destination after the copy of the node \<open>s\<close> onto what was there.
\<close>

fun copy_node :: "node \<Rightarrow> node option \<Rightarrow> error + node"
  and copy_entries :: "(string \<times> node) list \<Rightarrow> (string \<times> node) list \<Rightarrow> error + (string \<times> node) list" where
  "copy_node (File c) None = Inr (File c)"
| "copy_node (File c) (Some (File c')) = Inr (File c)"
| "copy_node (File c) (Some (Dir ds)) = Inl CopyError"
| "copy_node (Dir es) None =
     (case copy_entries es [] of Inl e \<Rightarrow> Inl e | Inr ds' \<Rightarrow> Inr (Dir ds'))"
| "copy_node (Dir es) (Some (File c')) = Inl CopyError"
| "copy_node (Dir es) (Some (Dir ds)) =
     (case copy_entries es ds of Inl e \<Rightarrow> Inl e | Inr ds' \<Rightarrow> Inr (Dir ds'))"
| "copy_entries [] ds = Inr ds"
| "copy_entries ((n, s) # es) ds =
     (case copy_node s (map_of ds n) of
        Inl e \<Rightarrow> Inl e
      | Inr c \<Rightarrow> copy_entries es (AList.update n c ds))"

text \<open>
  The source is read before the destination is written; the utility refuses a
  destination that is the source or lies inside it.  (For a source inside the
  destination the utility interleaves reads and writes; the scaffolder never gets
  there, since its destination was empty when it was checked.)
\<close>

definition copySync :: "path \<Rightarrow> path \<Rightarrow> node \<Rightarrow> error + node" where
  "copySync src dest root =
     (case lookup root src of
        None \<Rightarrow> Inl ENOENT
      | Some s \<Rightarrow>
          if prefix src dest then Inl CopyError
          else bind_err (copy_node s (lookup root dest)) (\<lambda>n. put True dest n (Some root)))"

subsection \<open>Merging the manifests\<close>

text \<open>The three maps \<^verbatim>\<open>dependencies\<close>, \<^verbatim>\<open>devDependencies\<close> and \<^verbatim>\<open>scripts\<close>.\<close>

record manifest_maps =
  dependencies :: "(string \<times> json) list"
  devDependencies :: "(string \<times> json) list"
  scripts :: "(string \<times> json) list"

text \<open>The body of the loop over \<^verbatim>\<open>directories\<close>, for one parsed manifest.\<close>

definition merge_manifest :: "json \<Rightarrow> manifest_maps \<Rightarrow> error + manifest_maps" where
  "merge_manifest packageJson acc =
     bind_err (get_field packageJson ''dependencies'') (\<lambda>d.
     bind_err (get_field packageJson ''devDependencies'') (\<lambda>dd.
     bind_err (get_field packageJson ''scripts'') (\<lambda>sc.
       Inr \<lparr> dependencies = set_all (entries_or_empty d) (dependencies acc),
             devDependencies = set_all (entries_or_empty dd) (devDependencies acc),
             scripts = set_all (entries_or_empty sc) (scripts acc) \<rparr>)))"

fun merge_directories :: "node \<Rightarrow> path list \<Rightarrow> manifest_maps \<Rightarrow> error + manifest_maps" where
  "merge_directories root [] acc = Inr acc"
| "merge_directories root (directory # rest) acc =
     bind_err (readJSONSync root (resolve directory ''package.json'')) (\<lambda>packageJson.
     bind_err (merge_manifest packageJson acc) (\<lambda>acc'.
       merge_directories root rest acc'))"

text \<open>
  The property \<^verbatim>\<open>name: projectName\<close> of the returned object.  The object goes to
  \<^verbatim>\<open>writeJSONSync\<close> and nowhere else, and a property whose value is \<^verbatim>\<open>undefined\<close> is
  not written: with no project name the object is the one without a \<open>name\<close>, whatever
  the base manifest had there.
\<close>

definition set_name :: "string option \<Rightarrow> (string \<times> json) list \<Rightarrow> (string \<times> json) list" where
  "set_name projectName m =
     (case projectName of
        None \<Rightarrow> AList.delete ''name'' m
      | Some n \<Rightarrow> map_set ''name'' (JStr n) m)"

text \<open>
  \<^verbatim>\<open>createPackageJson\<close>.  \<open>templatesDirectory\<close> is the constant of that name, the
  directory of the templates in the installed package; \<open>root\<close> is the file system
  the manifests are read from.  With no template at all, \<^verbatim>\<open>directories[0]\<close> is
  \<^verbatim>\<open>undefined\<close> and resolving it throws.
\<close>

definition createPackageJson :: "path \<Rightarrow> node \<Rightarrow> string option \<Rightarrow> string list \<Rightarrow> error + json" where
  "createPackageJson templatesDirectory root projectName tmpls =
     (let directories = map (resolve templatesDirectory) tmpls in
      bind_err (merge_directories root directories
                  \<lparr> dependencies = [], devDependencies = [], scripts = [] \<rparr>) (\<lambda>acc.
        case directories of
          [] \<Rightarrow> Inl TypeError
        | directory0 # rest \<Rightarrow>
            bind_err (readJSONSync root (resolve directory0 ''package.json'')) (\<lambda>basePackageJson.
              Inr (JObj
                (map_set ''devDependencies'' (JObj (devDependencies acc))
                  (map_set ''dependencies'' (JObj (dependencies acc))
                    (map_set ''scripts'' (JObj (scripts acc))
                      (set_name projectName
                        (own_entries basePackageJson)))))))))"

subsection \<open>Scaffolding\<close>

text \<open>
  The state the scaffolder acts on: the file system, the lines written to the
  console, and the shell commands handed to \<^verbatim>\<open>exec\<close>.  A command is spawned and not
  awaited; what the spawned process prints and what it does to the file system are
  outside the model.
\<close>

record state =
  fs :: node
  console :: "string list"
  spawned :: "string list"

definition console_log :: "string \<Rightarrow> state \<Rightarrow> state" where
  "console_log line st = st\<lparr>console := console st @ [line]\<rparr>"

definition exec :: "string \<Rightarrow> state \<Rightarrow> state" where
  "exec command st = st\<lparr>spawned := spawned st @ [command]\<rparr>"

text \<open>A string between double quotes, as the command lines have the directory.\<close>

definition quoted :: "string \<Rightarrow> string" where
  "quoted s = CHR 0x22 # s @ [CHR 0x22]"

definition on_fs :: "(node \<Rightarrow> error + node) \<Rightarrow> state \<Rightarrow> error + state" where
  "on_fs f st = bind_err (f (fs st)) (\<lambda>root. Inr (st\<lparr>fs := root\<rparr>))"

text \<open>\<^verbatim>\<open>String.prototype.toLowerCase\<close> on the ASCII names of the databases.\<close>

definition toLowerCase :: "string \<Rightarrow> string" where
  "toLowerCase s =
     map (\<lambda>c. if 65 \<le> (of_char c :: nat) \<and> (of_char c :: nat) \<le> 90
               then char_of ((of_char c :: nat) + 32) else c) s"

text \<open>The block \<^verbatim>\<open>// initialize git repository\<close>.\<close>

definition initialize_git :: "path \<Rightarrow> ScaffoldOptions \<Rightarrow> state \<Rightarrow> error + state" where
  "initialize_git templatesDirectory options st =
     (if gitRepo options then
        on_fs (copySync (resolve templatesDirectory ''git'') (projectDirectory options))
          (exec (''cd '' @ quoted (path_string (projectDirectory options)) @ '' && git init'') st)
      else Inr st)"

text \<open>The block \<^verbatim>\<open>// copy base files\<close>.\<close>

definition copy_base_files :: "path \<Rightarrow> ScaffoldOptions \<Rightarrow> state \<Rightarrow> error + state" where
  "copy_base_files templatesDirectory options st =
     bind_err (on_fs (copySync (resolve templatesDirectory ''base'') (projectDirectory options)) st)
       (on_fs (copySync (resolve templatesDirectory (basePath options)) (projectDirectory options)))"

text \<open>The block \<^verbatim>\<open>// copy prisma files\<close>.\<close>

definition prismaSchema :: "ScaffoldOptions \<Rightarrow> string" where
  "prismaSchema options =
     ''prisma/'' @ nullish_or (map_option (toLowerCase \<circ> databaseName) (databaseType options)) ''mongodb''
       @ ''.prisma''"

definition copy_prisma_files :: "path \<Rightarrow> ScaffoldOptions \<Rightarrow> state \<Rightarrow> error + state" where
  "copy_prisma_files templatesDirectory options st =
     (if prisma options then
        bind_err (on_fs (mkdirSync (resolve (projectDirectory options) ''prisma'')) st)
          (on_fs (copyFileSync (resolve templatesDirectory (prismaSchema options))
                    (resolve (projectDirectory options) ''prisma/schema.prisma'')))
      else Inr st)"

text \<open>The block \<^verbatim>\<open>// copy eslint and prettier files\<close>.\<close>

definition copy_eslint_files :: "path \<Rightarrow> ScaffoldOptions \<Rightarrow> state \<Rightarrow> error + state" where
  "copy_eslint_files templatesDirectory options st =
     (if eslintAndPrettier options then
        on_fs (copySync (resolve templatesDirectory ''eslint-prettier'') (projectDirectory options)) st
      else Inr st)"

text \<open>The block \<^verbatim>\<open>// merge package.json files\<close>.\<close>

definition merge_package_json :: "path \<Rightarrow> ScaffoldOptions \<Rightarrow> state \<Rightarrow> error + state" where
  "merge_package_json templatesDirectory options st =
     bind_err (createPackageJson templatesDirectory (fs st) (name options) (templates options))
       (\<lambda>packageJson.
          on_fs (writeJSONSync (resolve (projectDirectory options) ''package.json'') packageJson) st)"

text \<open>The block \<^verbatim>\<open>// install dependencies\<close>.\<close>

definition install_dependencies :: "ScaffoldOptions \<Rightarrow> state \<Rightarrow> state" where
  "install_dependencies options st =
     (if install options then
        exec (''cd '' @ quoted (path_string (projectDirectory options)) @ '' && ''
                @ packageManagerName (packageManager options) @ '' install --ignore-workspace'') st
      else st)"

text \<open>Everything \<^verbatim>\<open>scaffoldProject\<close> does once the project directory is there and empty.\<close>

definition fill_project :: "path \<Rightarrow> ScaffoldOptions \<Rightarrow> state \<Rightarrow> error + state" where
  "fill_project templatesDirectory options st =
     bind_err (initialize_git templatesDirectory options st) (\<lambda>st.
     bind_err (copy_base_files templatesDirectory options st) (\<lambda>st.
     bind_err (copy_prisma_files templatesDirectory options st) (\<lambda>st.
     bind_err (copy_eslint_files templatesDirectory options st) (\<lambda>st.
     bind_err (merge_package_json templatesDirectory options st) (\<lambda>st.
       Inr (install_dependencies options st))))))"

text \<open>
  \<^verbatim>\<open>scaffoldProject\<close>.  \<open>Inr\<close> is a normal return with the state it leaves, \<open>Inl\<close> an
  uncaught exception.
\<close>

definition scaffoldProject :: "path \<Rightarrow> ScaffoldOptions \<Rightarrow> state \<Rightarrow> error + state" where
  "scaffoldProject templatesDirectory options st0 =
     (let st1 = console_log (''Using '' @ packageManagerName (packageManager options)
                               @ '' to scaffold the project'') st0
      in
        if existsSync (fs st1) (projectDirectory options) then
          bind_err (readdirSync (fs st1) (projectDirectory options)) (\<lambda>entries.
            if length entries > 0 then
              Inr (console_log (''The directory '' @ path_string (projectDirectory options)
                                  @ '' is not empty. Please try again.'') st1)
            else fill_project templatesDirectory options st1)
        else
          bind_err (on_fs (mkdirSync (projectDirectory options)) st1)
            (fill_project templatesDirectory options))"

text \<open>
  \<^verbatim>\<open>createFerodApp\<close>.  \<open>cwd\<close> is the working directory of the process and \<open>userAgent\<close>
  the value of the environment variable read by \<^verbatim>\<open>getUserPackageManager\<close>.  The name
  computed for the project directory is \<^verbatim>\<open>answers.name ?? options.name\<close>; the options
  handed to \<^verbatim>\<open>scaffoldProject\<close> are the answers themselves with the package manager
  and the directory.  Resolving a name that is \<^verbatim>\<open>undefined\<close> throws.
\<close>

definition createFerodApp ::
  "path \<Rightarrow> path \<Rightarrow> string option \<Rightarrow> Replies \<Rightarrow> CreateAppOptions \<Rightarrow> state \<Rightarrow> error + state" where
  "createFerodApp templatesDirectory cwd userAgent user options st =
     (let answers = getAnswers user options;
          packageManager = getUserPackageManager userAgent
      in case (case name answers of None \<Rightarrow> opt_name options | Some n \<Rightarrow> Some n) of
           None \<Rightarrow> Inl TypeError
         | Some projectName \<Rightarrow>
             scaffoldProject templatesDirectory
               \<lparr> name = name answers,
                 gitRepo = gitRepo answers,
                 install = install answers,
                 prisma = prisma answers,
                 databaseType = databaseType answers,
                 databaseUri = databaseUri answers,
                 typescript = typescript answers,
                 helpCommand = helpCommand answers,
                 dashboard = dashboard answers,
                 eslintAndPrettier = eslintAndPrettier answers,
                 packageManager = packageManager,
                 projectDirectory = resolve cwd projectName \<rparr>
               st)"

section \<open>Notions used to state the properties\<close>

subsection \<open>Plain relative paths\<close>

text \<open>
  A relative path is plain when it does not start at the root and has no component
  \<^verbatim>\<open>.\<close> or \<^verbatim>\<open>..\<close>: resolving it only goes down.
\<close>

definition plain :: "string \<Rightarrow> bool" where
  "plain rel = (\<not> is_absolute rel \<and> ''.'' \<notin> set (segments rel) \<and> ''..'' \<notin> set (segments rel))"

subsection \<open>Manifests\<close>

text \<open>
  The parsed manifest of a template, as \<^verbatim>\<open>createPackageJson\<close> reads it; the entries that
  one manifest contributes to one of the three maps; and the mapping that a sequence of
  writes leaves when the last write of a key wins.
\<close>

definition manifest_of :: "node \<Rightarrow> path \<Rightarrow> string \<Rightarrow> error + json" where
  "manifest_of root templatesDirectory template =
     readJSONSync root (resolve (resolve templatesDirectory template) ''package.json'')"

definition field_entries :: "string \<Rightarrow> json \<Rightarrow> (string \<times> json) list" where
  "field_entries k manifest =
     (case get_field manifest k of Inl e \<Rightarrow> [] | Inr v \<Rightarrow> entries_or_empty v)"

definition last_write :: "(string \<times> json) list \<Rightarrow> string \<Rightarrow> json option" where
  "last_write writes = map_of (rev writes)"

definition merged_maps :: "json list \<Rightarrow> manifest_maps \<Rightarrow> manifest_maps" where
  "merged_maps ms acc =
     \<lparr> dependencies = set_all (concat (map (field_entries ''dependencies'') ms)) (dependencies acc),
       devDependencies = set_all (concat (map (field_entries ''devDependencies'') ms)) (devDependencies acc),
       scripts = set_all (concat (map (field_entries ''scripts'') ms)) (scripts acc) \<rparr>"

subsection \<open>The project directory as a tree\<close>

text \<open>
  \<open>graft p v root\<close> is the file system \<open>root\<close> with the node \<open>v\<close> at the path \<open>p\<close>.
\<close>

definition graft :: "path \<Rightarrow> node \<Rightarrow> node \<Rightarrow> node" where
  "graft p v root = (case put True p v (Some root) of Inl e \<Rightarrow> root | Inr root' \<Rightarrow> root')"

text \<open>
  The steps of \<^verbatim>\<open>scaffoldProject\<close> once more, computed on the node \<open>d\<close> of the project
  directory alone: the templates and their manifests are read from the file system
  \<open>root\<close>, and the paths of the writes are relative to the project directory.
  \<open>project_tree\<close> is the node of the project directory that the copies build, or the
  error the first failing step meets.
\<close>

definition copy_template :: "node \<Rightarrow> path \<Rightarrow> string \<Rightarrow> node \<Rightarrow> error + node" where
  "copy_template root templatesDirectory template d =
     (case lookup root (resolve templatesDirectory template) of
        None \<Rightarrow> Inl ENOENT
      | Some s \<Rightarrow> copy_node s (Some d))"

definition copy_schema :: "node \<Rightarrow> path \<Rightarrow> ScaffoldOptions \<Rightarrow> node \<Rightarrow> error + node" where
  "copy_schema root templatesDirectory options d =
     (case lookup root (resolve templatesDirectory (prismaSchema options)) of
        None \<Rightarrow> Inl ENOENT
      | Some (Dir es) \<Rightarrow> Inl EISDIR
      | Some (File c) \<Rightarrow>
          (case lookup d (segments ''prisma/schema.prisma'') of
             Some (Dir ds) \<Rightarrow> Inl EISDIR
           | _ \<Rightarrow> put False (segments ''prisma/schema.prisma'') (File c) (Some d)))"

definition tree_git :: "node \<Rightarrow> path \<Rightarrow> ScaffoldOptions \<Rightarrow> node \<Rightarrow> error + node" where
  "tree_git root templatesDirectory options d =
     (if gitRepo options then copy_template root templatesDirectory ''git'' d else Inr d)"

definition tree_base :: "node \<Rightarrow> path \<Rightarrow> ScaffoldOptions \<Rightarrow> node \<Rightarrow> error + node" where
  "tree_base root templatesDirectory options d =
     bind_err (copy_template root templatesDirectory ''base'' d)
       (copy_template root templatesDirectory (basePath options))"

definition tree_prisma :: "node \<Rightarrow> path \<Rightarrow> ScaffoldOptions \<Rightarrow> node \<Rightarrow> error + node" where
  "tree_prisma root templatesDirectory options d =
     (if prisma options then
        bind_err (mkdirSync (segments ''prisma'') d) (copy_schema root templatesDirectory options)
      else Inr d)"

definition tree_eslint :: "node \<Rightarrow> path \<Rightarrow> ScaffoldOptions \<Rightarrow> node \<Rightarrow> error + node" where
  "tree_eslint root templatesDirectory options d =
     (if eslintAndPrettier options then copy_template root templatesDirectory ''eslint-prettier'' d
      else Inr d)"

definition tree_manifest :: "node \<Rightarrow> path \<Rightarrow> ScaffoldOptions \<Rightarrow> node \<Rightarrow> error + node" where
  "tree_manifest root templatesDirectory options d =
     bind_err (createPackageJson templatesDirectory root (name options) (templates options))
       (\<lambda>packageJson. writeJSONSync (segments ''package.json'') packageJson d)"

definition project_tree :: "node \<Rightarrow> path \<Rightarrow> ScaffoldOptions \<Rightarrow> node \<Rightarrow> error + node" where
  "project_tree root templatesDirectory options d =
     bind_err (tree_git root templatesDirectory options d) (\<lambda>d.
     bind_err (tree_base root templatesDirectory options d) (\<lambda>d.
     bind_err (tree_prisma root templatesDirectory options d) (\<lambda>d.
     bind_err (tree_eslint root templatesDirectory options d)
       (tree_manifest root templatesDirectory options))))"

text \<open>
  The shell commands of one run, in the order they are spawned.
\<close>

definition commands :: "ScaffoldOptions \<Rightarrow> string list" where
  "commands options =
     (if gitRepo options
      then [''cd '' @ quoted (path_string (projectDirectory options)) @ '' && git init''] else [])
     @ (if install options
        then [''cd '' @ quoted (path_string (projectDirectory options)) @ '' && ''
                @ packageManagerName (packageManager options) @ '' install --ignore-workspace'']
        else [])"

text \<open>
  A fresh target: the path is absent and its parent is a directory, or it is an empty
  directory.
\<close>

definition fresh_target :: "node \<Rightarrow> path \<Rightarrow> bool" where
  "fresh_target root p =
     (case lookup root p of
        None \<Rightarrow> p \<noteq> [] \<and> (case lookup root (butlast p) of Some (Dir es) \<Rightarrow> True | _ \<Rightarrow> False)
      | Some (Dir es) \<Rightarrow> es = []
      | Some (File c) \<Rightarrow> False)"

text \<open>
  The content of the file at a path, if there is a file; what a later copy leaves of an
  earlier one at a path; and the content that the last of a sequence of copies having a
  file there leaves.
\<close>

definition file_at :: "node \<Rightarrow> path \<Rightarrow> content option" where
  "file_at n p = (case lookup n p of Some (File c) \<Rightarrow> Some c | _ \<Rightarrow> None)"



text \<open>
  No directory of a file system holds two entries of one name.
\<close>

fun distinct_names :: "node \<Rightarrow> bool"
  and distinct_entries :: "(string \<times> node) list \<Rightarrow> bool" where
  "distinct_names (File c) = True"
| "distinct_names (Dir es) = (distinct (map fst es) \<and> distinct_entries es)"
| "distinct_entries [] = True"
| "distinct_entries ((n, c) # es) = (distinct_names c \<and> distinct_entries es)"

text \<open>
  The name of the schema file of a database type, and of the default.
\<close>

definition schemaName :: "DatabaseType option \<Rightarrow> string" where
  "schemaName db =
     (case db of
        None \<Rightarrow> ''mongodb''
      | Some MySQL \<Rightarrow> ''mysql''
      | Some MongoDB \<Rightarrow> ''mongodb''
      | Some SQLite \<Rightarrow> ''sqlite''
      | Some PostgreSQL \<Rightarrow> ''postgresql''
      | Some SQLServer \<Rightarrow> ''sqlserver''
      | Some CockroachDB \<Rightarrow> ''cockroachdb'')"

subsection \<open>Templates that can be laid over one another\<close>












section \<open>A sample installation\<close>

text \<open>
  A small file system with the six templates and three places for a project: an absent
  path, an empty directory and an occupied one.  \<open>demo_result\<close> is the state that
  scaffolding into the absent path leaves.
\<close>

definition demo_templatesDirectory :: path where
  "demo_templatesDirectory = [''opt'', ''create-app'', ''templates'']"

definition demo_base_manifest :: json where
  "demo_base_manifest = JObj [(''name'', JStr ''template''), (''version'', JStr ''1.0.0''),
      (''type'', JStr ''module''), (''scripts'', JObj [(''build'', JStr ''x'')])]"

definition demo_ts_manifest :: json where
  "demo_ts_manifest = JObj [(''scripts'', JObj [(''build'', JStr ''y''), (''test'', JStr ''z'')]),
      (''devDependencies'', JObj [(''typescript'', JStr ''5.0.0'')])]"

definition demo_templates :: node where
  "demo_templates = Dir [
     (''git'', Dir [(''.gitignore'', File (Text ''node_modules'')),
                    (''package.json'', File (Json (JObj [(''scripts'', JObj [(''hook'', JStr ''h'')])])))]),
     (''base'', Dir [(''package.json'', File (Json demo_base_manifest)),
                     (''README.md'', File (Text ''base readme'')),
                     (''src'', Dir [(''index'', File (Text ''base index''))])]),
     (''base-ts'', Dir [(''package.json'', File (Json demo_ts_manifest)),
                        (''src'', Dir [(''index'', File (Text ''ts index''))])]),
     (''base-js'', Dir [(''package.json'', File (Json (JObj [])))]),
     (''prisma'', Dir [(''package.json'', File (Json (JObj [(''dependencies'', JObj [(''prisma'', JStr ''4.0.0'')])]))),
                       (''mongodb.prisma'', File (Text ''mongodb schema'')),
                       (''postgresql.prisma'', File (Text ''postgresql schema''))]),
     (''eslint-prettier'', Dir [(''package.json'', File (Json (JObj [(''devDependencies'', JObj [(''eslint'', JStr ''8.0.0'')])]))),
                                (''.eslintrc'', File (Text ''rules''))])]"

definition demo_root :: node where
  "demo_root = Dir [
     (''opt'', Dir [(''create-app'', Dir [(''templates'', demo_templates)])]),
     (''home'', Dir [(''occupied'', Dir [(''notes.txt'', File (Text ''keep''))]),
                     (''empty'', Dir [])])]"

definition demo_state :: state where
  "demo_state = \<lparr> fs = demo_root, console = [], spawned = [] \<rparr>"

definition demo_options :: "path \<Rightarrow> ScaffoldOptions" where
  "demo_options dir = \<lparr> name = Some ''demo'', gitRepo = True, install = True, prisma = True,
     databaseType = Some PostgreSQL, databaseUri = None, typescript = True, helpCommand = True,
     dashboard = True, eslintAndPrettier = True, packageManager = Pnpm, projectDirectory = dir \<rparr>"

text \<open>
  A user who answers the prompt: the name \<open>asked\<close>, PostgreSQL at a URI of their own,
  JavaScript, everything else affirmed.
\<close>

definition demo_replies :: Replies where
  "demo_replies = \<lparr> reply_name = ''asked'', reply_gitRepo = True, reply_install = True,
      reply_prisma = True, reply_databaseType = PostgreSQL,
      reply_databaseUri = ''postgresql://localhost:5432/asked'',
      reply_typescript = False, reply_helpCommand = True, reply_dashboard = True,
      reply_eslintAndPrettier = True \<rparr>"

definition demo_manifest :: json where
  "demo_manifest = JObj [(''name'', JStr ''demo''), (''version'', JStr ''1.0.0''),
      (''type'', JStr ''module''),
      (''scripts'', JObj [(''build'', JStr ''y''), (''test'', JStr ''z'')]),
      (''dependencies'', JObj [(''prisma'', JStr ''4.0.0'')]),
      (''devDependencies'', JObj [(''typescript'', JStr ''5.0.0''), (''eslint'', JStr ''8.0.0'')])]"

definition demo_project :: node where
  "demo_project = Dir [
     (''.gitignore'', File (Text ''node_modules'')),
     (''package.json'', File (Json demo_manifest)),
     (''README.md'', File (Text ''base readme'')),
     (''src'', Dir [(''index'', File (Text ''ts index''))]),
     (''prisma'', Dir [(''schema.prisma'', File (Text ''postgresql schema''))]),
     (''.eslintrc'', File (Text ''rules''))]"

definition demo_result :: state where
  "demo_result = \<lparr>
     fs = Dir [
       (''opt'', Dir [(''create-app'', Dir [(''templates'', demo_templates)])]),
       (''home'', Dir [(''occupied'', Dir [(''notes.txt'', File (Text ''keep''))]),
                       (''empty'', Dir []),
                       (''demo'', demo_project)])],
     console = [''Using pnpm to scaffold the project''],
     spawned = [''cd '' @ quoted ''/home/demo'' @ '' && git init'',
                ''cd '' @ quoted ''/home/demo'' @ '' && pnpm install --ignore-workspace''] \<rparr>"

section \<open>Properties\<close>

subsection \<open>Resolving plain names\<close>

lemma foldl_step_plain:
  "''.'' \<notin> set segs \<Longrightarrow> ''..'' \<notin> set segs \<Longrightarrow> foldl step p segs = p @ segs"
  by (induction segs arbitrary: p) (auto simp: step_def)

lemma resolve_plain: "plain rel \<Longrightarrow> resolve dir rel = dir @ segments rel"
  by (simp add: plain_def resolve_def foldl_step_plain)

lemma plain_names:
  "plain ''git''" "plain ''base''" "plain ''base-ts''" "plain ''base-js''" "plain ''prisma''"
  "plain ''eslint-prettier''" "plain ''package.json''" "plain ''prisma/schema.prisma''"
  by code_simp+

lemma plain_basePath: "plain (basePath options)"
  by (simp add: basePath_def plain_names)

lemma toLowerCase_names:
  "toLowerCase ''MySQL'' = ''mysql''"
  "toLowerCase ''MongoDB'' = ''mongodb''"
  "toLowerCase ''SQLite'' = ''sqlite''"
  "toLowerCase ''PostgreSQL'' = ''postgresql''"
  "toLowerCase ''SQLServer'' = ''sqlserver''"
  "toLowerCase ''CockroachDB'' = ''cockroachdb''"
  by code_simp+

lemma schemaName_lower: "schemaName (Some d) = toLowerCase (databaseName d)"
  by (cases d) (simp_all add: schemaName_def toLowerCase_names)

lemma segments_from_plain:
  "CHR ''/'' \<notin> set s \<Longrightarrow> segments_from cur s = (if cur @ s = [] then [] else [cur @ s])"
  by (induction s arbitrary: cur) auto

lemma segments_from_append_slash:
  "CHR ''/'' \<notin> set s \<Longrightarrow>
   segments_from cur (s @ CHR ''/'' # rest)
   = (if cur @ s = [] then [] else [cur @ s]) @ segments_from [] rest"
  by (induction s arbitrary: cur) auto

lemma schemaName_plain: "CHR ''/'' \<notin> set (schemaName db)" "schemaName db \<noteq> []"
  by (cases db; (cases "the db")?; simp add: schemaName_def)+

lemma segments_prismaSchema:
  "segments (prismaSchema options) = [''prisma'', schemaName (databaseType options) @ ''.prisma'']"
proof -
  have eq: "prismaSchema options = ''prisma'' @ CHR ''/'' # (schemaName (databaseType options) @ ''.prisma'')"
    by (cases "databaseType options")
      (simp_all add: prismaSchema_def nullish_or_def schemaName_lower [symmetric], simp add: schemaName_def)
  have plain: "CHR ''/'' \<notin> set (schemaName (databaseType options) @ ''.prisma'')"
    using schemaName_plain(1) [of "databaseType options"] by simp
  show ?thesis
    unfolding segments_def eq
    by (subst segments_from_append_slash) (simp_all add: segments_from_plain [OF plain])
qed

lemma segments_prisma: "segments ''prisma'' = [''prisma'']"
  and segments_schema: "segments ''prisma/schema.prisma'' = [''prisma'', ''schema.prisma'']"
  and segments_package_json: "segments ''package.json'' = [''package.json'']"
  by (simp_all add: segments_def)

lemma plain_prismaSchema: "plain (prismaSchema options)"
proof -
  have "length (schemaName (databaseType options) @ ''.prisma'') \<noteq> length ''.''"
    "length (schemaName (databaseType options) @ ''.prisma'') \<noteq> length ''..''"
    by simp_all
  then have "schemaName (databaseType options) @ ''.prisma'' \<noteq> ''.''"
    "schemaName (databaseType options) @ ''.prisma'' \<noteq> ''..''"
    by (metis, metis)
  moreover have "\<not> is_absolute (prismaSchema options)"
    by (simp add: is_absolute_def prismaSchema_def)
  ultimately show ?thesis
    by (simp add: plain_def segments_prismaSchema)
qed

subsection \<open>The Template Set\<close>

lemma templates_list:
  "templates options =
     [''base'', basePath options]
       @ (if prisma options then [''prisma''] else [])
       @ (if eslintAndPrettier options then [''eslint-prettier''] else [])"
  by (simp add: templates_def new_Set_def set_add_def basePath_def)

lemma plain_templates: "\<forall>t\<in>set (templates options). plain t"
  by (auto simp: templates_list plain_names plain_basePath)

text \<open>
  Claim C3.  Whatever the answers, the Template Set holds \<open>base\<close>, holds \<open>base-ts\<close>
  exactly when TypeScript is chosen and \<open>base-js\<close> exactly when it is not, holds
  \<open>prisma\<close> exactly when the database layer is requested and \<open>eslint-prettier\<close> exactly
  when linting is requested, holds nothing else, and holds no name twice.
\<close>

theorem templates_membership:
  "''base'' \<in> set (templates options)
   \<and> (''base-ts'' \<in> set (templates options)) = typescript options
   \<and> (''base-js'' \<in> set (templates options)) = (\<not> typescript options)
   \<and> (''prisma'' \<in> set (templates options)) = prisma options
   \<and> (''eslint-prettier'' \<in> set (templates options)) = eslintAndPrettier options
   \<and> set (templates options) \<subseteq> {''base'', ''base-ts'', ''base-js'', ''prisma'', ''eslint-prettier''}
   \<and> distinct (templates options)"
  by (simp add: templates_list basePath_def)

theorem templates_membership_witness:
  "''base'' \<in> set (templates \<lparr> name = Some ''demo'', gitRepo = True, install = True, prisma = False,
       databaseType = None, databaseUri = None, typescript = False, helpCommand = True,
       dashboard = True, eslintAndPrettier = True, packageManager = Npm,
       projectDirectory = [''home'', ''demo''] \<rparr>)
   \<and> templates \<lparr> name = Some ''demo'', gitRepo = True, install = True, prisma = False,
       databaseType = None, databaseUri = None, typescript = False, helpCommand = True,
       dashboard = True, eslintAndPrettier = True, packageManager = Npm,
       projectDirectory = [''home'', ''demo''] \<rparr> = [''base'', ''base-js'', ''eslint-prettier'']"
  using templates_membership [of "\<lparr> name = Some ''demo'', gitRepo = True, install = True, prisma = False,
       databaseType = None, databaseUri = None, typescript = False, helpCommand = True,
       dashboard = True, eslintAndPrettier = True, packageManager = Npm,
       projectDirectory = [''home'', ''demo''] \<rparr>"]
  by (simp add: templates_list basePath_def)

subsection \<open>The Answer Collector\<close>

text \<open>
  Claim C6, as the specification has it, asks for every boolean answer to be true
  under the non-interactive flag.  With the flag \<^verbatim>\<open>noGit\<close> given as well, the answer
  \<^verbatim>\<open>gitRepo\<close> is false.
\<close>

theorem getAnswers_yes_noGit_counterexample:
  "gitRepo (getAnswers demo_replies
      \<lparr> opt_name = None, flags = \<lparr> yes = Some True, noGit = Some True, noInstall = None \<rparr> \<rparr>)
   = False"
  by (simp add: getAnswers_def)

text \<open>
  Claim C6, amended.  Under the non-interactive flag the answers do not depend on the
  replies of the user: the name is the one supplied, or \<open>my-app\<close>; \<^verbatim>\<open>gitRepo\<close> is true exactly when
  the flag \<^verbatim>\<open>noGit\<close> is absent and \<^verbatim>\<open>install\<close> exactly when \<^verbatim>\<open>noInstall\<close> is absent; the
  other booleans are true; the database type is MongoDB and the connection URI is
  \<open>mongodb://localhost:27017/\<close> followed by the name.
\<close>

theorem getAnswers_yes:
  assumes "yes (flags options) = Some True"
  shows "name (getAnswers user options) = Some (case opt_name options of None \<Rightarrow> ''my-app'' | Some n \<Rightarrow> n)
    \<and> gitRepo (getAnswers user options) = (noGit (flags options) = None)
    \<and> install (getAnswers user options) = (noInstall (flags options) = None)
    \<and> prisma (getAnswers user options)
    \<and> typescript (getAnswers user options)
    \<and> helpCommand (getAnswers user options)
    \<and> dashboard (getAnswers user options)
    \<and> eslintAndPrettier (getAnswers user options)
    \<and> databaseType (getAnswers user options) = Some MongoDB
    \<and> databaseUri (getAnswers user options)
        = Some (''mongodb://localhost:27017/''
                  @ (case opt_name options of None \<Rightarrow> ''my-app'' | Some n \<Rightarrow> n))"
  using assms by (simp add: getAnswers_def nullish_or_def)

theorem getAnswers_yes_witness:
  "yes (flags \<lparr> opt_name = Some ''demo'', flags = \<lparr> yes = Some True, noGit = None, noInstall = Some True \<rparr> \<rparr>) = Some True
   \<and> name (getAnswers demo_replies
      \<lparr> opt_name = Some ''demo'', flags = \<lparr> yes = Some True, noGit = None, noInstall = Some True \<rparr> \<rparr>) = Some ''demo''
   \<and> gitRepo (getAnswers demo_replies
      \<lparr> opt_name = Some ''demo'', flags = \<lparr> yes = Some True, noGit = None, noInstall = Some True \<rparr> \<rparr>)
   \<and> install (getAnswers demo_replies
      \<lparr> opt_name = Some ''demo'', flags = \<lparr> yes = Some True, noGit = None, noInstall = Some True \<rparr> \<rparr>) = False
   \<and> databaseType (getAnswers demo_replies
      \<lparr> opt_name = Some ''demo'', flags = \<lparr> yes = Some True, noGit = None, noInstall = Some True \<rparr> \<rparr>)
     = Some MongoDB
   \<and> databaseUri (getAnswers demo_replies
      \<lparr> opt_name = Some ''demo'', flags = \<lparr> yes = Some True, noGit = None, noInstall = Some True \<rparr> \<rparr>)
     = Some ''mongodb://localhost:27017/demo''"
  using getAnswers_yes [of "\<lparr> opt_name = Some ''demo'', flags = \<lparr> yes = Some True, noGit = None, noInstall = Some True \<rparr> \<rparr>"
      demo_replies]
  by simp

subsection \<open>Package-manager detection\<close>

lemma starts_with_prefix: "starts_with s sub = prefix sub s"
  by (induction s sub rule: starts_with.induct) auto

lemma str_includes_sublist: "str_includes s sub = sublist sub s"
  by (induction s) (auto simp: starts_with_prefix sublist_Cons_right)

text \<open>
  Claim C7.  The detected package manager is a function of the value of the
  environment variable alone and is one of npm, yarn and pnpm: yarn exactly when the
  value contains \<open>yarn\<close>, pnpm exactly when it contains \<open>pnpm\<close> and not \<open>yarn\<close>, and npm
  exactly when the variable is not set or its value contains neither.
\<close>

theorem getUserPackageManager_detects:
  "getUserPackageManager userAgent \<in> {Npm, Yarn, Pnpm}
   \<and> (getUserPackageManager userAgent = Yarn)
       = (\<exists>ua. userAgent = Some ua \<and> sublist ''yarn'' ua)
   \<and> (getUserPackageManager userAgent = Pnpm)
       = (\<exists>ua. userAgent = Some ua \<and> \<not> sublist ''yarn'' ua \<and> sublist ''pnpm'' ua)
   \<and> (getUserPackageManager userAgent = Npm)
       = (userAgent = None \<or> (\<exists>ua. userAgent = Some ua \<and> \<not> sublist ''yarn'' ua \<and> \<not> sublist ''pnpm'' ua))"
  by (cases userAgent) (auto simp: getUserPackageManager_def str_includes_sublist)

theorem getUserPackageManager_detects_witness:
  "getUserPackageManager None = Npm
   \<and> getUserPackageManager (Some ''npm/9.5.0 node/v18.15.0 linux x64'') = Npm
   \<and> getUserPackageManager (Some ''yarn/1.22.19 npm/? node/v18.15.0 linux x64'') = Yarn
   \<and> getUserPackageManager (Some ''pnpm/8.6.0 npm/? node/v18.15.0 linux x64'') = Pnpm"
  using getUserPackageManager_detects [of None]
    getUserPackageManager_detects [of "Some ''pnpm/8.6.0 npm/? node/v18.15.0 linux x64''"]
  by (simp add: getUserPackageManager_def)

subsection \<open>Merging the manifests\<close>

lemma map_of_set_all: "map_of (set_all es m) = map_of m ++ map_of (rev es)"
proof (induction es arbitrary: m)
  case Nil
  then show ?case by (simp add: set_all_def)
next
  case (Cons e es)
  obtain k v where e: "e = (k, v)" by (cases e)
  have "map_of (set_all (e # es) m) = map_of (set_all es (map_set k v m))"
    by (simp add: set_all_def e)
  also have "\<dots> = map_of (map_set k v m) ++ map_of (rev es)"
    by (rule Cons.IH)
  also have "\<dots> = map_of m ++ map_of (rev (e # es))"
    by (simp add: map_set_def update_conv' e)
  finally show ?case .
qed

lemma distinct_set_all: "distinct (map fst m) \<Longrightarrow> distinct (map fst (set_all es m))"
  by (induction es arbitrary: m) (auto simp: set_all_def map_set_def distinct_update)

lemma set_all_append: "set_all (xs @ ys) m = set_all ys (set_all xs m)"
  by (simp add: set_all_def)

lemma merge_manifest_not_null:
  "packageJson \<noteq> JNull \<Longrightarrow>
   merge_manifest packageJson acc = Inr (merged_maps [packageJson] acc)"
  by (cases packageJson) (simp_all add: merge_manifest_def merged_maps_def get_field_def bind_err_def field_entries_def)

lemma merged_maps_Cons: "merged_maps (m # ms) acc = merged_maps ms (merged_maps [m] acc)"
  by (simp add: merged_maps_def set_all_append)

lemma merge_directories_manifests:
  assumes "map (manifest_of root T) tmpls = map Inr ms" and "JNull \<notin> set ms"
  shows "merge_directories root (map (resolve T) tmpls) acc = Inr (merged_maps ms acc)"
  using assms
proof (induction tmpls arbitrary: ms acc)
  case Nil
  then show ?case by (simp add: merged_maps_def set_all_def)
next
  case (Cons t ts)
  then obtain m ms' where ms: "ms = m # ms'" by (cases ms) auto
  with Cons.prems have m: "manifest_of root T t = Inr m" "m \<noteq> JNull"
    and rest: "map (manifest_of root T) ts = map Inr ms'" "JNull \<notin> set ms'"
    by auto
  from m(1) have rd: "readJSONSync root (resolve (resolve T t) ''package.json'') = Inr m"
    by (simp add: manifest_of_def)
  show ?case
    using Cons.IH [OF rest] merge_manifest_not_null [OF m(2)]
    by (simp add: rd bind_err_def ms merged_maps_Cons [of m ms'])
qed

lemma merge_directories_cong:
  "(\<forall>dir \<in> set dirs. readJSONSync r1 (resolve dir ''package.json'')
                      = readJSONSync r2 (resolve dir ''package.json''))
   \<Longrightarrow> merge_directories r1 dirs acc = merge_directories r2 dirs acc"
  by (induction dirs arbitrary: acc) (auto simp: bind_err_def split: sum.splits)

lemma createPackageJson_cong:
  assumes "\<forall>t \<in> set tmpls. manifest_of r1 T t = manifest_of r2 T t"
  shows "createPackageJson T r1 projectName tmpls = createPackageJson T r2 projectName tmpls"
proof -
  have a: "\<forall>dir \<in> set (map (resolve T) tmpls).
      readJSONSync r1 (resolve dir ''package.json'') = readJSONSync r2 (resolve dir ''package.json'')"
    using assms by (simp add: manifest_of_def)
  have b: "tmpls \<noteq> [] \<Longrightarrow> readJSONSync r1 (resolve (resolve T (hd tmpls)) ''package.json'')
      = readJSONSync r2 (resolve (resolve T (hd tmpls)) ''package.json'')"
    using assms by (cases tmpls) (simp_all add: manifest_of_def)
  have m: "merge_directories r1 (map (resolve T) tmpls) acc
      = merge_directories r2 (map (resolve T) tmpls) acc" for acc
    by (rule merge_directories_cong [OF a])
  show ?thesis
  proof (cases tmpls)
    case Nil
    then show ?thesis by (simp add: createPackageJson_def)
  next
    case (Cons t ts)
    with b have "readJSONSync r1 (resolve (resolve T t) ''package.json'')
      = readJSONSync r2 (resolve (resolve T t) ''package.json'')" by simp
    then show ?thesis
      unfolding createPackageJson_def Let_def m by (simp add: Cons)
  qed
qed

lemma map_of_set_name:
  "map_of (set_name projectName m) k
   = (if k = ''name'' then map_option JStr projectName else map_of m k)"
  by (cases projectName) (simp_all add: set_name_def map_set_def update_conv' delete_conv')

text \<open>
  Claim C1.  When the manifest of every template of a list parses to a value other
  than \<^verbatim>\<open>null\<close>, the loop of \<^verbatim>\<open>createPackageJson\<close> over the templates ends with three
  maps that have each key once, and in each of them the value of a key is the one
  written last when the entries of the manifests are written in the order of the
  templates; for a list that is not empty \<^verbatim>\<open>createPackageJson\<close> returns an object whose
  fields \<open>scripts\<close>, \<open>dependencies\<close> and \<open>devDependencies\<close> are these maps.  For a
  template with the script \<open>build: x\<close> followed by one with \<open>build: y\<close> and \<open>test: z\<close>
  the merged scripts are \<open>build: y\<close> and \<open>test: z\<close>.
\<close>

theorem createPackageJson_last_write_wins:
  assumes "map (manifest_of root T) tmpls = map Inr ms"
    and "JNull \<notin> set ms"
  shows "\<exists>acc.
      merge_directories root (map (resolve T) tmpls)
        \<lparr> dependencies = [], devDependencies = [], scripts = [] \<rparr> = Inr acc
    \<and> distinct (map fst (scripts acc))
    \<and> distinct (map fst (dependencies acc))
    \<and> distinct (map fst (devDependencies acc))
    \<and> map_of (scripts acc) = last_write (concat (map (field_entries ''scripts'') ms))
    \<and> map_of (dependencies acc) = last_write (concat (map (field_entries ''dependencies'') ms))
    \<and> map_of (devDependencies acc) = last_write (concat (map (field_entries ''devDependencies'') ms))
    \<and> (tmpls = [] \<or> (\<exists>fields.
          createPackageJson T root projectName tmpls = Inr (JObj fields)
        \<and> map_of fields ''scripts'' = Some (JObj (scripts acc))
        \<and> map_of fields ''dependencies'' = Some (JObj (dependencies acc))
        \<and> map_of fields ''devDependencies'' = Some (JObj (devDependencies acc))))"
proof -
  let ?e = "\<lparr> dependencies = [], devDependencies = [], scripts = [] \<rparr>"
  let ?acc = "merged_maps ms ?e"
  have loop: "merge_directories root (map (resolve T) tmpls) ?e = Inr ?acc"
    by (rule merge_directories_manifests [OF assms])
  have d: "distinct (map fst (scripts ?acc))" "distinct (map fst (dependencies ?acc))"
    "distinct (map fst (devDependencies ?acc))"
    by (simp_all add: merged_maps_def distinct_set_all)
  have w: "map_of (scripts ?acc) = last_write (concat (map (field_entries ''scripts'') ms))"
    "map_of (dependencies ?acc) = last_write (concat (map (field_entries ''dependencies'') ms))"
    "map_of (devDependencies ?acc) = last_write (concat (map (field_entries ''devDependencies'') ms))"
    by (simp_all add: merged_maps_def map_of_set_all last_write_def)
  have r: "tmpls = [] \<or> (\<exists>fields.
          createPackageJson T root projectName tmpls = Inr (JObj fields)
        \<and> map_of fields ''scripts'' = Some (JObj (scripts ?acc))
        \<and> map_of fields ''dependencies'' = Some (JObj (dependencies ?acc))
        \<and> map_of fields ''devDependencies'' = Some (JObj (devDependencies ?acc)))"
  proof (cases tmpls)
    case Nil
    then show ?thesis by simp
  next
    case (Cons t ts)
    then obtain m ms' where ms: "ms = m # ms'" using assms(1) by (cases ms) auto
    have base: "readJSONSync root (resolve (resolve T t) ''package.json'') = Inr m"
      using assms(1) by (simp add: Cons ms manifest_of_def)
    let ?fields = "map_set ''devDependencies'' (JObj (devDependencies ?acc))
                  (map_set ''dependencies'' (JObj (dependencies ?acc))
                    (map_set ''scripts'' (JObj (scripts ?acc))
                      (set_name projectName (own_entries m))))"
    have res: "createPackageJson T root projectName tmpls = Inr (JObj ?fields)"
      using loop base by (simp add: createPackageJson_def bind_err_def Cons)
    have "map_of ?fields ''scripts'' = Some (JObj (scripts ?acc))"
      "map_of ?fields ''dependencies'' = Some (JObj (dependencies ?acc))"
      "map_of ?fields ''devDependencies'' = Some (JObj (devDependencies ?acc))"
      by (simp_all add: map_set_def update_conv' map_of_set_name)
    with res show ?thesis by blast
  qed
  from loop d w r show ?thesis by blast
qed

theorem createPackageJson_last_write_wins_witness:
  "map (manifest_of demo_root demo_templatesDirectory) [''base'', ''base-ts'']
       = map Inr [demo_base_manifest, demo_ts_manifest]
   \<and> JNull \<notin> set [demo_base_manifest, demo_ts_manifest]
   \<and> field_entries ''scripts'' demo_base_manifest = [(''build'', JStr ''x'')]
   \<and> field_entries ''scripts'' demo_ts_manifest = [(''build'', JStr ''y''), (''test'', JStr ''z'')]
   \<and> (\<exists>acc. merge_directories demo_root (map (resolve demo_templatesDirectory) [''base'', ''base-ts''])
               \<lparr> dependencies = [], devDependencies = [], scripts = [] \<rparr> = Inr acc
          \<and> map_of (scripts acc) ''build'' = Some (JStr ''y'')
          \<and> map_of (scripts acc) ''test'' = Some (JStr ''z'')
          \<and> map_of (scripts acc) ''start'' = None)
   \<and> createPackageJson demo_templatesDirectory demo_root (Some ''demo'') [''base'', ''base-ts'']
       = Inr (JObj [(''name'', JStr ''demo''), (''version'', JStr ''1.0.0''), (''type'', JStr ''module''),
                    (''scripts'', JObj [(''build'', JStr ''y''), (''test'', JStr ''z'')]),
                    (''dependencies'', JObj []),
                    (''devDependencies'', JObj [(''typescript'', JStr ''5.0.0'')])])"
proof -
  have b: "map (manifest_of demo_root demo_templatesDirectory) [''base'', ''base-ts'']
       = map Inr [demo_base_manifest, demo_ts_manifest]"
    by code_simp
  have c: "JNull \<notin> set [demo_base_manifest, demo_ts_manifest]"
    by code_simp
  have e: "field_entries ''scripts'' demo_base_manifest = [(''build'', JStr ''x'')]"
    "field_entries ''scripts'' demo_ts_manifest = [(''build'', JStr ''y''), (''test'', JStr ''z'')]"
    by code_simp+
  have w: "last_write ([(''build'', JStr ''x'')] @ [(''build'', JStr ''y''), (''test'', JStr ''z'')]) ''build''
        = Some (JStr ''y'')"
    "last_write ([(''build'', JStr ''x'')] @ [(''build'', JStr ''y''), (''test'', JStr ''z'')]) ''test''
        = Some (JStr ''z'')"
    "last_write ([(''build'', JStr ''x'')] @ [(''build'', JStr ''y''), (''test'', JStr ''z'')]) ''start''
        = None"
    by code_simp+
  have r: "createPackageJson demo_templatesDirectory demo_root (Some ''demo'') [''base'', ''base-ts'']
       = Inr (JObj [(''name'', JStr ''demo''), (''version'', JStr ''1.0.0''), (''type'', JStr ''module''),
                    (''scripts'', JObj [(''build'', JStr ''y''), (''test'', JStr ''z'')]),
                    (''dependencies'', JObj []),
                    (''devDependencies'', JObj [(''typescript'', JStr ''5.0.0'')])])"
    by code_simp
  from createPackageJson_last_write_wins [OF b c, of "Some ''demo''"] obtain acc where
    loop: "merge_directories demo_root (map (resolve demo_templatesDirectory) [''base'', ''base-ts''])
               \<lparr> dependencies = [], devDependencies = [], scripts = [] \<rparr> = Inr acc"
    and s: "map_of (scripts acc)
        = last_write (concat (map (field_entries ''scripts'') [demo_base_manifest, demo_ts_manifest]))"
    by (elim exE conjE)
  have "concat (map (field_entries ''scripts'') [demo_base_manifest, demo_ts_manifest])
      = [(''build'', JStr ''x'')] @ [(''build'', JStr ''y''), (''test'', JStr ''z'')]"
    by (simp only: e list.map concat.simps append_Nil2)
  with s w have "map_of (scripts acc) ''build'' = Some (JStr ''y'')"
    "map_of (scripts acc) ''test'' = Some (JStr ''z'')"
    "map_of (scripts acc) ''start'' = None"
    by (simp_all only:)
  with loop have "\<exists>acc. merge_directories demo_root (map (resolve demo_templatesDirectory) [''base'', ''base-ts''])
               \<lparr> dependencies = [], devDependencies = [], scripts = [] \<rparr> = Inr acc
          \<and> map_of (scripts acc) ''build'' = Some (JStr ''y'')
          \<and> map_of (scripts acc) ''test'' = Some (JStr ''z'')
          \<and> map_of (scripts acc) ''start'' = None"
    by (intro exI [of _ acc] conjI)
  with b c e r show ?thesis by (intro conjI)
qed

text \<open>
  A manifest that \<^verbatim>\<open>createPackageJson\<close> returns is an object whose \<open>name\<close> is the
  project name it was given, absent when none was given; whose \<open>scripts\<close>,
  \<open>dependencies\<close> and \<open>devDependencies\<close> are the three merged maps; and whose every
  other field is the field of the manifest of the first template, present or absent as
  it is there.
\<close>

lemma createPackageJson_fields:
  assumes "createPackageJson T root projectName tmpls = Inr packageJson"
  shows "\<exists>base acc fields.
      tmpls \<noteq> []
    \<and> manifest_of root T (hd tmpls) = Inr base
    \<and> merge_directories root (map (resolve T) tmpls)
         \<lparr> dependencies = [], devDependencies = [], scripts = [] \<rparr> = Inr acc
    \<and> packageJson = JObj fields
    \<and> map_of fields ''name'' = map_option JStr projectName
    \<and> map_of fields ''scripts'' = Some (JObj (scripts acc))
    \<and> map_of fields ''dependencies'' = Some (JObj (dependencies acc))
    \<and> map_of fields ''devDependencies'' = Some (JObj (devDependencies acc))
    \<and> (\<forall>k. k \<notin> {''name'', ''scripts'', ''dependencies'', ''devDependencies''}
          \<longrightarrow> map_of fields k = map_of (own_entries base) k)"
proof -
  let ?e = "\<lparr> dependencies = [], devDependencies = [], scripts = [] \<rparr>"
  from assms obtain acc where loop: "merge_directories root (map (resolve T) tmpls) ?e = Inr acc"
    by (cases "merge_directories root (map (resolve T) tmpls) ?e")
      (auto simp: createPackageJson_def bind_err_def Let_def)
  from assms loop obtain t ts where tmpls: "tmpls = t # ts"
    by (cases tmpls) (auto simp: createPackageJson_def bind_err_def Let_def)
  from assms loop tmpls obtain base where
    base: "readJSONSync root (resolve (resolve T t) ''package.json'') = Inr base"
    by (cases "readJSONSync root (resolve (resolve T t) ''package.json'')")
      (auto simp: createPackageJson_def bind_err_def Let_def)
  let ?fields = "map_set ''devDependencies'' (JObj (devDependencies acc))
                  (map_set ''dependencies'' (JObj (dependencies acc))
                    (map_set ''scripts'' (JObj (scripts acc))
                      (set_name projectName (own_entries base))))"
  have pj: "packageJson = JObj ?fields"
    using assms loop base by (simp add: createPackageJson_def bind_err_def tmpls)
  have "map_of ?fields ''name'' = map_option JStr projectName"
    "map_of ?fields ''scripts'' = Some (JObj (scripts acc))"
    "map_of ?fields ''dependencies'' = Some (JObj (dependencies acc))"
    "map_of ?fields ''devDependencies'' = Some (JObj (devDependencies acc))"
    by (simp_all add: map_set_def update_conv' map_of_set_name)
  moreover have "\<forall>k. k \<notin> {''name'', ''scripts'', ''dependencies'', ''devDependencies''}
          \<longrightarrow> map_of ?fields k = map_of (own_entries base) k"
    by (simp add: map_set_def update_conv' map_of_set_name)
  ultimately show ?thesis
    using loop base pj by (simp add: tmpls manifest_of_def)
qed

text \<open>
  Claim C4 does not hold of the program.  \<^verbatim>\<open>createPackageJson\<close> gives the manifest the
  name that it is handed, and \<^verbatim>\<open>scaffoldProject\<close> hands it the name of the answers.
  When the project name comes with the command line and the prompts are not skipped,
  the prompt does not ask for the name and the answers hold none; \<^verbatim>\<open>createFerodApp\<close>
  uses the requested name for the project directory, but forwards the answers as they
  are.  In the sample installation, \<open>demo\<close> requested on the command line: the project
  is scaffolded in \<open>/home/demo\<close>, and the manifest written there has no \<open>name\<close> at all
  (the base manifest had the name \<open>template\<close>).  With no name on the command line and
  the name \<open>asked\<close> replied to the prompt, the manifest is named \<open>asked\<close>.
\<close>

theorem createFerodApp_requested_name_not_in_manifest:
  "name (getAnswers demo_replies
      \<lparr> opt_name = Some ''demo'', flags = \<lparr> yes = None, noGit = None, noInstall = None \<rparr> \<rparr>) = None
   \<and> map_sum id (\<lambda>st. lookup (fs st) [''home'', ''demo'', ''package.json''])
       (createFerodApp demo_templatesDirectory [''home''] None demo_replies
          \<lparr> opt_name = Some ''demo'', flags = \<lparr> yes = None, noGit = None, noInstall = None \<rparr> \<rparr>
          demo_state)
     = Inr (Some (File (Json (JObj [(''version'', JStr ''1.0.0''), (''type'', JStr ''module''),
         (''scripts'', JObj [(''build'', JStr ''x'')]),
         (''dependencies'', JObj [(''prisma'', JStr ''4.0.0'')]),
         (''devDependencies'', JObj [(''eslint'', JStr ''8.0.0'')])]))))
   \<and> manifest_of demo_root demo_templatesDirectory ''base''
     = Inr (JObj [(''name'', JStr ''template''), (''version'', JStr ''1.0.0''),
         (''type'', JStr ''module''), (''scripts'', JObj [(''build'', JStr ''x'')])])
   \<and> map_sum id (\<lambda>st. lookup (fs st) [''home'', ''asked'', ''package.json''])
       (createFerodApp demo_templatesDirectory [''home''] None demo_replies
          \<lparr> opt_name = None, flags = \<lparr> yes = None, noGit = None, noInstall = None \<rparr> \<rparr>
          demo_state)
     = Inr (Some (File (Json (JObj [(''name'', JStr ''asked''), (''version'', JStr ''1.0.0''),
         (''type'', JStr ''module''),
         (''scripts'', JObj [(''build'', JStr ''x'')]),
         (''dependencies'', JObj [(''prisma'', JStr ''4.0.0'')]),
         (''devDependencies'', JObj [(''eslint'', JStr ''8.0.0'')])]))))"
  by (intro conjI; code_simp)

subsection \<open>Reading and writing below a path\<close>

lemma lookup_append:
  "lookup n (p @ q) = (case lookup n p of None \<Rightarrow> None | Some m \<Rightarrow> lookup m q)"
  by (induction n p rule: lookup.induct) (auto split: option.splits)

lemma put_True_of_False: "put False p v old = Inr r \<Longrightarrow> put True p v old = Inr r"
proof (induction p arbitrary: old r)
  case Nil
  then show ?case by simp
next
  case (Cons s p)
  show ?case
  proof (cases old)
    case None
    with Cons.prems show ?thesis by simp
  next
    case (Some n)
    show ?thesis
    proof (cases n)
      case (File c)
      with Some Cons.prems show ?thesis by simp
    next
      case (Dir es)
      with Some Cons.prems obtain c where "put False p v (map_of es s) = Inr c"
        and "r = Dir (AList.update s c es)"
        by (auto split: sum.splits)
      with Cons.IH [of "map_of es s" c] Some Dir show ?thesis by simp
    qed
  qed
qed

lemma put_lookup_same: "put mk p v old = Inr r \<Longrightarrow> lookup r p = Some v"
proof (induction p arbitrary: old r)
  case Nil
  then show ?case by simp
next
  case (Cons s p)
  show ?case
  proof (cases old)
    case None
    with Cons.prems obtain c where "put mk p v None = Inr c" and "r = Dir [(s, c)]"
      by (auto split: if_splits sum.splits)
    with Cons.IH [of None c] show ?thesis by simp
  next
    case (Some n)
    show ?thesis
    proof (cases n)
      case (File c)
      with Some Cons.prems show ?thesis by simp
    next
      case (Dir es)
      with Some Cons.prems obtain c where "put mk p v (map_of es s) = Inr c"
        and "r = Dir (AList.update s c es)"
        by (auto split: sum.splits)
      with Cons.IH [of "map_of es s" c] show ?thesis by (simp add: update_conv')
    qed
  qed
qed

lemma put_lookup_apart:
  "put mk p v old = Inr r \<Longrightarrow> \<not> prefix p q \<Longrightarrow> \<not> prefix q p \<Longrightarrow>
   lookup r q = (case old of None \<Rightarrow> None | Some n \<Rightarrow> lookup n q)"
proof (induction p arbitrary: old r q)
  case Nil
  then show ?case by simp
next
  case (Cons s p)
  from Cons.prems(3) obtain s' q' where q: "q = s' # q'" by (cases q) auto
  show ?case
  proof (cases old)
    case None
    with Cons.prems(1) obtain c where c: "put mk p v None = Inr c" and r: "r = Dir [(s, c)]"
      by (auto split: if_splits sum.splits)
    show ?thesis
    proof (cases "s' = s")
      case True
      with Cons.prems(2,3) q have "\<not> prefix p q'" "\<not> prefix q' p" by auto
      from Cons.IH [OF c this] show ?thesis by (simp add: None r q True)
    next
      case False
      then show ?thesis by (simp add: None r q)
    qed
  next
    case (Some n)
    show ?thesis
    proof (cases n)
      case (File c)
      with Some Cons.prems show ?thesis by simp
    next
      case (Dir es)
      with Some Cons.prems(1) obtain c where c: "put mk p v (map_of es s) = Inr c"
        and r: "r = Dir (AList.update s c es)"
        by (auto split: sum.splits)
      show ?thesis
      proof (cases "s' = s")
        case True
        with Cons.prems(2,3) q have "\<not> prefix p q'" "\<not> prefix q' p" by auto
        from Cons.IH [OF c this] show ?thesis
          by (simp add: Some Dir r q True update_conv' split: option.splits)
      next
        case False
        then show ?thesis by (simp add: Some Dir r q update_conv')
      qed
    qed
  qed
qed

lemma put_put: "put mk' p v1 old = Inr r1 \<Longrightarrow> put mk p v2 (Some r1) = put mk' p v2 old"
proof (induction p arbitrary: old r1)
  case Nil
  then show ?case by simp
next
  case (Cons s p)
  show ?case
  proof (cases old)
    case None
    with Cons.prems obtain c where c: "put mk' p v1 None = Inr c" and r: "r1 = Dir [(s, c)]"
      and mk: "mk'"
      by (auto split: if_splits sum.splits)
    from Cons.IH [OF c] show ?thesis by (simp add: None r mk split: sum.splits)
  next
    case (Some n)
    show ?thesis
    proof (cases n)
      case (File c)
      with Some Cons.prems show ?thesis by simp
    next
      case (Dir es)
      with Some Cons.prems obtain c where c: "put mk' p v1 (map_of es s) = Inr c"
        and r: "r1 = Dir (AList.update s c es)"
        by (auto split: sum.splits)
      from Cons.IH [OF c] show ?thesis
        by (simp add: Some Dir r update_conv' split: sum.splits)
    qed
  qed
qed

lemma put_succeeds_again: "put mk p v1 old = Inr r1 \<Longrightarrow> \<exists>r2. put mk p v2 old = Inr r2"
proof (induction p arbitrary: old r1)
  case Nil
  then show ?case by simp
next
  case (Cons s p)
  show ?case
  proof (cases old)
    case None
    with Cons.prems obtain c where c: "put mk p v1 None = Inr c" and mk: "mk"
      by (auto split: if_splits sum.splits)
    from Cons.IH [OF c] show ?thesis by (auto simp: None mk)
  next
    case (Some n)
    show ?thesis
    proof (cases n)
      case (File c)
      with Some Cons.prems show ?thesis by simp
    next
      case (Dir es)
      with Some Cons.prems obtain c where c: "put mk p v1 (map_of es s) = Inr c"
        by (auto split: sum.splits)
      from Cons.IH [OF c] show ?thesis by (auto simp: Some Dir)
    qed
  qed
qed

lemma put_append:
  "lookup root p = Some d \<Longrightarrow>
   put mk (p @ r) v (Some root) = bind_err (put mk r v (Some d)) (\<lambda>d'. put mk p d' (Some root))"
proof (induction p arbitrary: root)
  case Nil
  then show ?case by (simp add: bind_err_def split: sum.splits)
next
  case (Cons s p)
  from Cons.prems obtain es c where root: "root = Dir es" and c: "map_of es s = Some c"
    and d: "lookup c p = Some d"
    by (cases root) (auto split: option.splits)
  from Cons.IH [OF d] show ?case
    by (simp add: root c bind_err_def split: sum.splits)
qed

lemma put_same: "lookup root p = Some v \<Longrightarrow> put mk p v (Some root) = Inr root"
proof (induction p arbitrary: root)
  case Nil
  then show ?case by simp
next
  case (Cons s p)
  from Cons.prems obtain es c where root: "root = Dir es" and c: "map_of es s = Some c"
    and d: "lookup c p = Some v"
    by (cases root) (auto split: option.splits)
  from Cons.IH [OF d] show ?case
    by (simp add: root c update_triv)
qed

lemma put_into_directory:
  assumes "p \<noteq> []" and "lookup root (butlast p) = Some (Dir es)"
  shows "\<exists>r. put mk p v (Some root) = Inr r"
proof -
  let ?d = "Dir (AList.update (last p) v es)"
  from put_succeeds_again [OF put_same [OF assms(2), of mk], of ?d]
  obtain r where r: "put mk (butlast p) ?d (Some root) = Inr r" by blast
  have "put mk (butlast p @ [last p]) v (Some root) = Inr r"
    by (simp add: put_append [OF assms(2)] bind_err_def r)
  with assms(1) show ?thesis by auto
qed

lemma put_False_new:
  "put False p v old = Inr r \<Longrightarrow> p \<noteq> [] \<Longrightarrow>
   (case old of None \<Rightarrow> None | Some n \<Rightarrow> lookup n p) = None \<Longrightarrow>
   \<exists>es. (case old of None \<Rightarrow> None | Some n \<Rightarrow> lookup n (butlast p)) = Some (Dir es)"
proof (induction p arbitrary: old r)
  case Nil
  then show ?case by simp
next
  case (Cons s p)
  show ?case
  proof (cases old)
    case None
    with Cons.prems show ?thesis by simp
  next
    case (Some n)
    show ?thesis
    proof (cases n)
      case (File c)
      with Some Cons.prems show ?thesis by simp
    next
      case (Dir es)
      with Some Cons.prems(1) obtain c where c: "put False p v (map_of es s) = Inr c"
        by (auto split: sum.splits)
      show ?thesis
      proof (cases "p = []")
        case True
        then show ?thesis by (simp add: Some Dir)
      next
        case False
        from Cons.prems(3) have "(case map_of es s of None \<Rightarrow> None | Some n \<Rightarrow> lookup n p) = None"
          by (simp add: Some Dir split: option.splits)
        from Cons.IH [OF c False this] False show ?thesis
          by (simp add: Some Dir split: option.splits)
      qed
    qed
  qed
qed

lemma graft_put:
  assumes "put True p v0 (Some root) = Inr r0"
  shows "put True p v (Some root) = Inr (graft p v root)"
  using put_succeeds_again [OF assms, of v] by (auto simp: graft_def)

lemma lookup_graft_same:
  assumes "put True p v0 (Some root) = Inr r0"
  shows "lookup (graft p v root) p = Some v"
  using put_lookup_same [OF graft_put [OF assms]] .

lemma lookup_graft_below:
  assumes "put True p v0 (Some root) = Inr r0"
  shows "lookup (graft p v root) (p @ r) = lookup v r"
  by (simp add: lookup_append lookup_graft_same [OF assms])

lemma lookup_graft_apart:
  assumes "put True p v0 (Some root) = Inr r0" and "\<not> prefix p q" and "\<not> prefix q p"
  shows "lookup (graft p v root) q = lookup root q"
  using put_lookup_apart [OF graft_put [OF assms(1)] assms(2,3)] by simp

lemma put_graft:
  assumes "put True p v0 (Some root) = Inr r0"
  shows "put mk p v' (Some (graft p v root)) = Inr (graft p v' root)"
  using put_put [OF graft_put [OF assms, of v], of mk v'] graft_put [OF assms, of v'] by simp

lemma put_graft_below:
  assumes "put True p v0 (Some root) = Inr r0"
  shows "put mk (p @ r) x (Some (graft p v root))
         = bind_err (put mk r x (Some v)) (\<lambda>v'. Inr (graft p v' root))"
  by (simp add: put_append [OF lookup_graft_same [OF assms]] put_graft [OF assms])

lemma apart_extend:
  assumes "\<not> prefix T P" and "\<not> prefix P T"
  shows "\<not> prefix (T @ x) P" and "\<not> prefix P (T @ x)"
proof -
  show "\<not> prefix (T @ x) P" using assms(1) by (auto dest: append_prefixD)
  show "\<not> prefix P (T @ x)"
  proof
    assume "prefix P (T @ x)"
    moreover have "prefix T (T @ x)" by simp
    ultimately have "prefix P T \<or> prefix T P" by (rule prefix_same_cases)
    with assms show False by blast
  qed
qed

subsection \<open>The steps of the scaffolder on the project directory\<close>

lemma createPackageJson_graft:
  assumes "put True P v0 (Some root) = Inr r0" and "\<not> prefix T P" and "\<not> prefix P T"
    and "\<forall>t\<in>set tmpls. plain t"
  shows "createPackageJson T (graft P d root) projectName tmpls
         = createPackageJson T root projectName tmpls"
proof (rule createPackageJson_cong, rule ballI)
  fix t
  assume "t \<in> set tmpls"
  with assms(4) have t: "plain t" by simp
  have "lookup (graft P d root) (T @ (segments t @ segments ''package.json''))
        = lookup root (T @ (segments t @ segments ''package.json''))"
    by (rule lookup_graft_apart [OF assms(1) apart_extend(2) [OF assms(2,3)] apart_extend(1) [OF assms(2,3)]])
  then show "manifest_of (graft P d root) T t = manifest_of root T t"
    by (simp add: manifest_of_def readJSONSync_def resolve_plain t plain_names)
qed

lemma copySync_graft:
  assumes "put True P v0 (Some root) = Inr r0" and "\<not> prefix T P" and "\<not> prefix P T"
    and "plain t"
  shows "copySync (resolve T t) P (graft P d root)
         = bind_err (copy_template root T t d) (\<lambda>d'. Inr (graft P d' root))"
proof -
  have a: "lookup (graft P d root) (resolve T t) = lookup root (resolve T t)"
    unfolding resolve_plain [OF assms(4)]
    by (rule lookup_graft_apart [OF assms(1) apart_extend(2) [OF assms(2,3)] apart_extend(1) [OF assms(2,3)]])
  have b: "\<not> prefix (resolve T t) P"
    unfolding resolve_plain [OF assms(4)] by (rule apart_extend(1) [OF assms(2,3)])
  show ?thesis
    by (simp add: copySync_def copy_template_def a b lookup_graft_same [OF assms(1)]
        put_graft [OF assms(1)] bind_err_def split: option.splits sum.splits)
qed

lemma mkdirSync_graft:
  assumes "put True P v0 (Some root) = Inr r0" and "plain rel"
  shows "mkdirSync (resolve P rel) (graft P d root)
         = bind_err (mkdirSync (segments rel) d) (\<lambda>d'. Inr (graft P d' root))"
  using assms(2)
  by (simp add: mkdirSync_def resolve_plain lookup_graft_below [OF assms(1)] put_graft_below [OF assms(1)]
      bind_err_def split: option.splits sum.splits)

lemma writeJSONSync_graft:
  assumes "put True P v0 (Some root) = Inr r0" and "plain rel"
  shows "writeJSONSync (resolve P rel) j (graft P d root)
         = bind_err (writeJSONSync (segments rel) j d) (\<lambda>d'. Inr (graft P d' root))"
  using assms(2)
  by (simp add: writeJSONSync_def resolve_plain lookup_graft_below [OF assms(1)] put_graft_below [OF assms(1)]
      bind_err_def split: option.splits sum.splits node.splits)

lemma copyFileSync_graft:
  assumes "put True P v0 (Some root) = Inr r0" and "\<not> prefix T P" and "\<not> prefix P T"
  shows "copyFileSync (resolve T (prismaSchema options)) (resolve P ''prisma/schema.prisma'') (graft P d root)
         = bind_err (copy_schema root T options d) (\<lambda>d'. Inr (graft P d' root))"
proof -
  have a: "lookup (graft P d root) (resolve T (prismaSchema options))
           = lookup root (resolve T (prismaSchema options))"
    unfolding resolve_plain [OF plain_prismaSchema]
    by (rule lookup_graft_apart [OF assms(1) apart_extend(2) [OF assms(2,3)] apart_extend(1) [OF assms(2,3)]])
  show ?thesis
    unfolding copyFileSync_def copy_schema_def a
    by (simp add: resolve_plain plain_prismaSchema plain_names lookup_graft_below [OF assms(1)] put_graft_below [OF assms(1)]
        bind_err_def split: option.splits sum.splits node.splits)
qed

lemma on_fs_state:
  "on_fs f \<lparr> fs = root, console = c, spawned = sp \<rparr>
   = bind_err (f root) (\<lambda>root'. Inr \<lparr> fs = root', console = c, spawned = sp \<rparr>)"
  by (simp add: on_fs_def)

lemma bind_err_assoc: "bind_err (bind_err r f) g = bind_err r (\<lambda>x. bind_err (f x) g)"
  by (simp add: bind_err_def split: sum.splits)

lemma bind_err_Inr: "bind_err (Inr x) f = f x"
  by (simp add: bind_err_def)

lemma initialize_git_graft:
  assumes "put True (projectDirectory options) v0 (Some root) = Inr r0"
    and "\<not> prefix T (projectDirectory options)" and "\<not> prefix (projectDirectory options) T"
  shows "initialize_git T options \<lparr> fs = graft (projectDirectory options) d root, console = c, spawned = sp \<rparr>
     = bind_err (tree_git root T options d) (\<lambda>d'.
         Inr \<lparr> fs = graft (projectDirectory options) d' root, console = c,
               spawned = sp @ (if gitRepo options
                 then [''cd '' @ quoted (path_string (projectDirectory options)) @ '' && git init'']
                 else []) \<rparr>)"
  by (simp add: initialize_git_def tree_git_def exec_def on_fs_state
      copySync_graft [OF assms plain_names(1)] bind_err_assoc bind_err_Inr)

lemma copy_base_files_graft:
  assumes "put True (projectDirectory options) v0 (Some root) = Inr r0"
    and "\<not> prefix T (projectDirectory options)" and "\<not> prefix (projectDirectory options) T"
  shows "copy_base_files T options \<lparr> fs = graft (projectDirectory options) d root, console = c, spawned = sp \<rparr>
     = bind_err (tree_base root T options d) (\<lambda>d'.
         Inr \<lparr> fs = graft (projectDirectory options) d' root, console = c, spawned = sp \<rparr>)"
  by (simp add: copy_base_files_def tree_base_def on_fs_state
      copySync_graft [OF assms plain_names(2)] copySync_graft [OF assms plain_basePath]
      bind_err_assoc bind_err_Inr)

lemma copy_prisma_files_graft:
  assumes "put True (projectDirectory options) v0 (Some root) = Inr r0"
    and "\<not> prefix T (projectDirectory options)" and "\<not> prefix (projectDirectory options) T"
  shows "copy_prisma_files T options \<lparr> fs = graft (projectDirectory options) d root, console = c, spawned = sp \<rparr>
     = bind_err (tree_prisma root T options d) (\<lambda>d'.
         Inr \<lparr> fs = graft (projectDirectory options) d' root, console = c, spawned = sp \<rparr>)"
  by (simp add: copy_prisma_files_def tree_prisma_def on_fs_state
      mkdirSync_graft [OF assms(1) plain_names(5)]
      copyFileSync_graft [OF assms] bind_err_assoc bind_err_Inr)

lemma copy_eslint_files_graft:
  assumes "put True (projectDirectory options) v0 (Some root) = Inr r0"
    and "\<not> prefix T (projectDirectory options)" and "\<not> prefix (projectDirectory options) T"
  shows "copy_eslint_files T options \<lparr> fs = graft (projectDirectory options) d root, console = c, spawned = sp \<rparr>
     = bind_err (tree_eslint root T options d) (\<lambda>d'.
         Inr \<lparr> fs = graft (projectDirectory options) d' root, console = c, spawned = sp \<rparr>)"
  by (simp add: copy_eslint_files_def tree_eslint_def on_fs_state
      copySync_graft [OF assms plain_names(6)] bind_err_assoc bind_err_Inr)

lemma merge_package_json_graft:
  assumes "put True (projectDirectory options) v0 (Some root) = Inr r0"
    and "\<not> prefix T (projectDirectory options)" and "\<not> prefix (projectDirectory options) T"
  shows "merge_package_json T options \<lparr> fs = graft (projectDirectory options) d root, console = c, spawned = sp \<rparr>
     = bind_err (tree_manifest root T options d) (\<lambda>d'.
         Inr \<lparr> fs = graft (projectDirectory options) d' root, console = c, spawned = sp \<rparr>)"
  by (simp add: merge_package_json_def tree_manifest_def on_fs_state
      createPackageJson_graft [OF assms plain_templates]
      writeJSONSync_graft [OF assms(1) plain_names(7)] bind_err_assoc bind_err_Inr)

lemma fill_project_graft:
  assumes "put True (projectDirectory options) v0 (Some root) = Inr r0"
    and "\<not> prefix T (projectDirectory options)" and "\<not> prefix (projectDirectory options) T"
  shows "fill_project T options \<lparr> fs = graft (projectDirectory options) d root, console = c, spawned = sp \<rparr>
     = bind_err (project_tree root T options d) (\<lambda>d'.
         Inr \<lparr> fs = graft (projectDirectory options) d' root, console = c,
               spawned = sp @ commands options \<rparr>)"
  by (simp add: fill_project_def project_tree_def initialize_git_graft [OF assms]
      copy_base_files_graft [OF assms] copy_prisma_files_graft [OF assms]
      copy_eslint_files_graft [OF assms] merge_package_json_graft [OF assms]
      install_dependencies_def exec_def commands_def bind_err_assoc bind_err_Inr)

lemma fresh_target_put:
  assumes "fresh_target root p"
  shows "\<exists>r. put True p (Dir []) (Some root) = Inr r"
proof (cases "lookup root p")
  case None
  with assms obtain es where "p \<noteq> []" and "lookup root (butlast p) = Some (Dir es)"
    by (auto simp: fresh_target_def split: option.splits node.splits)
  then show ?thesis by (rule put_into_directory)
next
  case (Some n)
  from put_succeeds_again [OF put_same [OF Some]] show ?thesis .
qed

text \<open>
  Into a fresh target that neither contains the templates directory nor lies in it,
  \<^verbatim>\<open>scaffoldProject\<close> fails exactly when building the project tree fails, and
  otherwise grafts the tree at the project directory.
\<close>

lemma scaffoldProject_fresh:
  assumes target: "fresh_target (fs st) (projectDirectory options)"
    and apart: "\<not> prefix T (projectDirectory options)" "\<not> prefix (projectDirectory options) T"
  shows "scaffoldProject T options st
     = bind_err (project_tree (fs st) T options (Dir [])) (\<lambda>d.
         Inr \<lparr> fs = graft (projectDirectory options) d (fs st),
               console = console st @ [''Using '' @ packageManagerName (packageManager options)
                                        @ '' to scaffold the project''],
               spawned = spawned st @ commands options \<rparr>)"
proof -
  let ?P = "projectDirectory options"
  let ?c = "console st @ [''Using '' @ packageManagerName (packageManager options)
                                        @ '' to scaffold the project'']"
  have st1: "console_log (''Using '' @ packageManagerName (packageManager options)
                @ '' to scaffold the project'') st
             = \<lparr> fs = fs st, console = ?c, spawned = spawned st \<rparr>"
    by (simp add: console_log_def)
  show ?thesis
  proof (cases "lookup (fs st) ?P")
    case None
    with target obtain es where ne: "?P \<noteq> []" and par: "lookup (fs st) (butlast ?P) = Some (Dir es)"
      by (auto simp: fresh_target_def split: option.splits node.splits)
    from put_into_directory [OF ne par] obtain r where r: "put False ?P (Dir []) (Some (fs st)) = Inr r"
      by blast
    have t: "put True ?P (Dir []) (Some (fs st)) = Inr r" by (rule put_True_of_False [OF r])
    then have g: "r = graft ?P (Dir []) (fs st)" by (simp add: graft_def)
    have mk: "mkdirSync ?P (fs st) = Inr (graft ?P (Dir []) (fs st))"
      using r g by (simp add: mkdirSync_def None)
    show ?thesis
      unfolding scaffoldProject_def Let_def st1
      by (simp add: existsSync_def None on_fs_state mk bind_err_Inr fill_project_graft [OF t apart])
  next
    case (Some n)
    with target have n: "n = Dir []"
      by (cases n) (auto simp: fresh_target_def)
    have t: "put True ?P (Dir []) (Some (fs st)) = Inr (fs st)"
      by (rule put_same) (simp add: Some n)
    then have g: "graft ?P (Dir []) (fs st) = fs st" by (simp add: graft_def)
    have "fill_project T options \<lparr> fs = graft ?P (Dir []) (fs st), console = ?c, spawned = spawned st \<rparr>
      = bind_err (project_tree (fs st) T options (Dir [])) (\<lambda>d.
         Inr \<lparr> fs = graft ?P d (fs st), console = ?c, spawned = spawned st @ commands options \<rparr>)"
      by (rule fill_project_graft [OF t apart])
    then show ?thesis
      unfolding scaffoldProject_def Let_def st1 g
      by (simp add: existsSync_def readdirSync_def Some n bind_err_Inr)
  qed
qed

lemma scaffoldProject_fresh_result:
  assumes target: "fresh_target (fs st) (projectDirectory options)"
    and apart: "\<not> prefix T (projectDirectory options)" "\<not> prefix (projectDirectory options) T"
    and ok: "scaffoldProject T options st = Inr st'"
  shows "\<exists>d. project_tree (fs st) T options (Dir []) = Inr d
    \<and> (\<forall>r. lookup (fs st') (projectDirectory options @ r) = lookup d r)
    \<and> (\<forall>q. \<not> prefix (projectDirectory options) q \<and> \<not> prefix q (projectDirectory options)
          \<longrightarrow> lookup (fs st') q = lookup (fs st) q)
    \<and> console st' = console st @ [''Using '' @ packageManagerName (packageManager options)
                                        @ '' to scaffold the project'']
    \<and> spawned st' = spawned st @ commands options"
proof -
  from fresh_target_put [OF target] obtain r0 where
    p: "put True (projectDirectory options) (Dir []) (Some (fs st)) = Inr r0" by blast
  from ok scaffoldProject_fresh [OF target apart] obtain d where
    d: "project_tree (fs st) T options (Dir []) = Inr d"
    and st': "st' = \<lparr> fs = graft (projectDirectory options) d (fs st),
               console = console st @ [''Using '' @ packageManagerName (packageManager options)
                                        @ '' to scaffold the project''],
               spawned = spawned st @ commands options \<rparr>"
    by (cases "project_tree (fs st) T options (Dir [])") (auto simp: bind_err_def)
  show ?thesis
    using d by (simp add: st' lookup_graft_below [OF p] lookup_graft_apart [OF p])
qed

subsection \<open>What the copies leave\<close>

lemma distinct_entries_map_of:
  "distinct_entries es \<Longrightarrow> map_of es n = Some c \<Longrightarrow> distinct_names c"
  by (induction es) (auto split: if_splits)

lemma distinct_names_lookup:
  "distinct_names n \<Longrightarrow> lookup n p = Some m \<Longrightarrow> distinct_names m"
  by (induction n p rule: lookup.induct) (auto split: option.splits dest: distinct_entries_map_of)

lemma file_at_Nil_Dir [simp]: "file_at (Dir es) [] = None"
  by (simp add: file_at_def)






lemma copy_entries_keeps:
  "copy_entries es ds = Inr ds' \<Longrightarrow> map_of es n = None \<Longrightarrow> map_of ds' n = map_of ds n"
proof (induction es arbitrary: ds)
  case Nil
  then show ?case by simp
next
  case (Cons e es)
  obtain n0 s0 where e: "e = (n0, s0)" by (cases e)
  from Cons.prems(2) have ne: "n0 \<noteq> n" and rest: "map_of es n = None"
    by (auto simp: e split: if_splits)
  from Cons.prems(1) obtain c0 where "copy_entries es (AList.update n0 c0 ds) = Inr ds'"
    by (auto simp: e split: sum.splits)
  from Cons.IH [OF this rest] ne show ?case by (simp add: update_conv')
qed

lemma copy_node_keeps:
  assumes "copy_node s (Some d) = Inr m" and "lookup s [n] = None"
  shows "lookup m [n] = lookup d [n]"
proof (cases s)
  case (File c)
  with assms(1) show ?thesis by (cases d) auto
next
  case (Dir es)
  with assms(1) obtain ds ds' where d: "d = Dir ds" and c: "copy_entries es ds = Inr ds'"
    and m: "m = Dir ds'"
    by (cases d) (auto split: sum.splits)
  from assms(2) Dir have "map_of es n = None" by (simp split: option.splits)
  from copy_entries_keeps [OF c this] show ?thesis by (simp add: d m)
qed

lemma copy_entries_entry:
  "distinct (map fst es) \<Longrightarrow> copy_entries es ds = Inr ds' \<Longrightarrow> map_of es n = Some s \<Longrightarrow>
   \<exists>c. copy_node s (map_of ds n) = Inr c \<and> map_of ds' n = Some c"
proof (induction es arbitrary: ds)
  case Nil
  then show ?case by simp
next
  case (Cons e es)
  obtain n0 s0 where e: "e = (n0, s0)" by (cases e)
  from Cons.prems(2) obtain c0 where c0: "copy_node s0 (map_of ds n0) = Inr c0"
    and rest: "copy_entries es (AList.update n0 c0 ds) = Inr ds'"
    by (auto simp: e split: sum.splits)
  from Cons.prems(1) have d: "distinct (map fst es)" and fresh: "n0 \<notin> fst ` set es"
    by (auto simp: e)
  show ?case
  proof (cases "n = n0")
    case True
    with Cons.prems(3) have s: "s = s0" by (simp add: e)
    from fresh have "map_of es n0 = None" by (simp add: map_of_eq_None_iff)
    from copy_entries_keeps [OF rest this] have "map_of ds' n0 = Some c0"
      by (simp add: update_conv')
    with c0 show ?thesis by (simp add: True s)
  next
    case False
    with Cons.prems(3) have "map_of es n = Some s" by (simp add: e)
    from Cons.IH [OF d rest this] False show ?thesis by (simp add: update_conv')
  qed
qed

lemma lookup_single: "lookup (Dir es) [n] = map_of es n"
  by (simp split: option.splits)

lemma copy_node_entry:
  assumes "distinct_names t" and "copy_node t (Some d) = Inr m" and "lookup t [n] = Some s"
  shows "\<exists>c. copy_node s (lookup d [n]) = Inr c \<and> lookup m [n] = Some c"
proof (cases t)
  case (File c)
  with assms(3) show ?thesis by simp
next
  case (Dir es)
  with assms(2) obtain ds ds' where d: "d = Dir ds" and c: "copy_entries es ds = Inr ds'"
    and m: "m = Dir ds'"
    by (cases d) (auto split: sum.splits)
  from assms(3) have s: "map_of es n = Some s" unfolding Dir lookup_single .
  from assms(1) Dir have "distinct (map fst es)" by simp
  from copy_entries_entry [OF this c s] obtain c' where
    "copy_node s (map_of ds n) = Inr c'" and "map_of ds' n = Some c'" by blast
  then show ?thesis unfolding d m lookup_single by blast
qed

lemma project_tree_steps:
  assumes "project_tree root T options d0 = Inr d"
  shows "\<exists>d1 d2 d3 d4. tree_git root T options d0 = Inr d1 \<and> tree_base root T options d1 = Inr d2
    \<and> tree_prisma root T options d2 = Inr d3 \<and> tree_eslint root T options d3 = Inr d4
    \<and> tree_manifest root T options d4 = Inr d"
  using assms by (auto simp: project_tree_def bind_err_def split: sum.splits)

lemma tree_prisma_result:
  assumes "prisma options" and "tree_prisma root T options d = Inr d'"
  shows "\<exists>es c. d = Dir es \<and> map_of es ''prisma'' = None
    \<and> lookup root (T @ [''prisma'', schemaName (databaseType options) @ ''.prisma'']) = Some (File c)
    \<and> d' = Dir (AList.update ''prisma'' (Dir [(''schema.prisma'', File c)]) es)"
proof -
  from assms obtain d1 where mk: "mkdirSync [''prisma''] d = Inr d1"
    and cp: "copy_schema root T options d1 = Inr d'"
    by (auto simp: tree_prisma_def bind_err_def segments_prisma split: sum.splits)
  from mk obtain es where d: "d = Dir es" and none: "map_of es ''prisma'' = None"
    and d1: "d1 = Dir (AList.update ''prisma'' (Dir []) es)"
    by (cases d) (auto simp: mkdirSync_def split: option.splits)
  from cp obtain c where
    src: "lookup root (T @ [''prisma'', schemaName (databaseType options) @ ''.prisma'']) = Some (File c)"
    and put: "put False [''prisma'', ''schema.prisma''] (File c) (Some d1) = Inr d'"
    by (auto simp: copy_schema_def resolve_plain plain_prismaSchema segments_prismaSchema segments_schema
        split: option.splits node.splits)
  from put have "d' = Dir (AList.update ''prisma'' (Dir [(''schema.prisma'', File c)]) es)"
    by (simp add: d1 update_conv')
  with d none src show ?thesis by blast
qed

lemma tree_manifest_result:
  assumes "tree_manifest root T options d = Inr d'"
  shows "\<exists>packageJson es. createPackageJson T root (name options) (templates options) = Inr packageJson
    \<and> d = Dir es \<and> d' = Dir (AList.update ''package.json'' (File (Json packageJson)) es)
    \<and> (\<forall>ds. map_of es ''package.json'' \<noteq> Some (Dir ds))"
proof -
  from assms obtain pj where pj: "createPackageJson T root (name options) (templates options) = Inr pj"
    and w: "writeJSONSync [''package.json''] pj d = Inr d'"
    by (auto simp: tree_manifest_def bind_err_def segments_package_json split: sum.splits)
  from w obtain es where "d = Dir es" "d' = Dir (AList.update ''package.json'' (File (Json pj)) es)"
    "\<forall>ds. map_of es ''package.json'' \<noteq> Some (Dir ds)"
    by (cases d) (auto simp: writeJSONSync_def split: option.splits node.splits)
  with pj show ?thesis by blast
qed


subsection \<open>Copies that succeed\<close>
























subsection \<open>An occupied project directory\<close>

lemma scaffoldProject_occupied:
  assumes "lookup (fs st) (projectDirectory options) = Some (Dir entries)" and "entries \<noteq> []"
  shows "scaffoldProject T options st =
     Inr (st\<lparr>console := console st @
        [''Using '' @ packageManagerName (packageManager options) @ '' to scaffold the project'',
         ''The directory '' @ path_string (projectDirectory options) @ '' is not empty. Please try again.'']\<rparr>)"
  using assms
  by (simp add: scaffoldProject_def Let_def console_log_def existsSync_def readdirSync_def bind_err_def)

lemma demo_occupied:
  "lookup (fs demo_state) (projectDirectory (demo_options [''home'', ''occupied'']))
     = Some (Dir [(''notes.txt'', File (Text ''keep''))])"
  "[(''notes.txt'', File (Text ''keep''))] \<noteq> []"
  by code_simp+

text \<open>
  Claim C2.  When the project directory exists and has at least one entry,
  \<^verbatim>\<open>scaffoldProject\<close> returns normally, leaves the whole file system as it was, and has
  written to the console the line that names the package manager and then the line
  that says the directory is not empty.
\<close>

theorem scaffold_occupied_directory:
  assumes "lookup (fs st) (projectDirectory options) = Some (Dir entries)" and "entries \<noteq> []"
  shows "\<exists>st'. scaffoldProject T options st = Inr st'
     \<and> fs st' = fs st
     \<and> console st' = console st @
        [''Using '' @ packageManagerName (packageManager options) @ '' to scaffold the project'',
         ''The directory '' @ path_string (projectDirectory options) @ '' is not empty. Please try again.'']"
  by (simp add: scaffoldProject_occupied [OF assms])

theorem scaffold_occupied_directory_witness:
  "lookup (fs demo_state) (projectDirectory (demo_options [''home'', ''occupied'']))
     = Some (Dir [(''notes.txt'', File (Text ''keep''))])
   \<and> [(''notes.txt'', File (Text ''keep''))] \<noteq> []
   \<and> scaffoldProject demo_templatesDirectory (demo_options [''home'', ''occupied'']) demo_state
     = Inr \<lparr> fs = demo_root,
            console = [''Using pnpm to scaffold the project'',
                       ''The directory /home/occupied is not empty. Please try again.''],
            spawned = [] \<rparr>"
proof -
  from scaffold_occupied_directory [OF demo_occupied, of demo_templatesDirectory]
  obtain st' where "scaffoldProject demo_templatesDirectory (demo_options [''home'', ''occupied'']) demo_state = Inr st'"
    and "fs st' = fs demo_state"
    and "console st' = console demo_state @
        [''Using '' @ packageManagerName (packageManager (demo_options [''home'', ''occupied''])) @ '' to scaffold the project'',
         ''The directory '' @ path_string (projectDirectory (demo_options [''home'', ''occupied''])) @ '' is not empty. Please try again.'']"
    by blast
  moreover have "scaffoldProject demo_templatesDirectory (demo_options [''home'', ''occupied'']) demo_state
     = Inr \<lparr> fs = demo_root,
            console = [''Using pnpm to scaffold the project'',
                       ''The directory /home/occupied is not empty. Please try again.''],
            spawned = [] \<rparr>"
    by code_simp
  ultimately show ?thesis using demo_occupied by simp
qed

text \<open>
  Claim C9.  When the project directory exists and has at least one entry,
  \<^verbatim>\<open>scaffoldProject\<close> returns normally and has spawned no command, whatever the
  answers \<^verbatim>\<open>gitRepo\<close> and \<^verbatim>\<open>install\<close> are.
\<close>

theorem scaffold_occupied_spawns_nothing:
  assumes "lookup (fs st) (projectDirectory options) = Some (Dir entries)" and "entries \<noteq> []"
  shows "\<exists>st'. scaffoldProject T options st = Inr st' \<and> spawned st' = spawned st"
  by (simp add: scaffoldProject_occupied [OF assms])

theorem scaffold_occupied_spawns_nothing_witness:
  "gitRepo (demo_options [''home'', ''occupied'']) \<and> install (demo_options [''home'', ''occupied''])
   \<and> lookup (fs demo_state) (projectDirectory (demo_options [''home'', ''occupied'']))
     = Some (Dir [(''notes.txt'', File (Text ''keep''))])
   \<and> [(''notes.txt'', File (Text ''keep''))] \<noteq> []
   \<and> map_sum id spawned
        (scaffoldProject demo_templatesDirectory (demo_options [''home'', ''occupied'']) demo_state)
      = Inr []"
proof -
  from scaffold_occupied_spawns_nothing [OF demo_occupied, of demo_templatesDirectory]
  obtain st' where "scaffoldProject demo_templatesDirectory (demo_options [''home'', ''occupied'']) demo_state = Inr st'"
    and "spawned st' = spawned demo_state"
    by blast
  then have "map_sum id spawned
        (scaffoldProject demo_templatesDirectory (demo_options [''home'', ''occupied'']) demo_state)
      = Inr []"
    by (simp add: demo_state_def)
  moreover have "gitRepo (demo_options [''home'', ''occupied''])" "install (demo_options [''home'', ''occupied''])"
    by (simp_all add: demo_options_def)
  ultimately show ?thesis using demo_occupied by simp
qed

subsection \<open>A fresh project directory\<close>

text \<open>
  A run that returns started from a fresh target or from an occupied one.
\<close>

lemma scaffoldProject_returns:
  assumes "scaffoldProject T options st = Inr st'"
  shows "fresh_target (fs st) (projectDirectory options)
       \<or> (\<exists>es. lookup (fs st) (projectDirectory options) = Some (Dir es) \<and> es \<noteq> [])"
proof (cases "lookup (fs st) (projectDirectory options)")
  case None
  with assms obtain r where "put False (projectDirectory options) (Dir []) (Some (fs st)) = Inr r"
    by (auto simp: scaffoldProject_def Let_def existsSync_def console_log_def on_fs_def bind_err_def
        mkdirSync_def split: sum.splits)
  moreover from None have ne: "projectDirectory options \<noteq> []" by auto
  ultimately obtain es where "lookup (fs st) (butlast (projectDirectory options)) = Some (Dir es)"
    using put_False_new [of "projectDirectory options" "Dir []" "Some (fs st)" r] None by auto
  with None ne show ?thesis
    by (simp add: fresh_target_def)
next
  case (Some n)
  with assms show ?thesis
    by (cases n)
      (auto simp: scaffoldProject_def Let_def existsSync_def console_log_def readdirSync_def
        bind_err_def fresh_target_def)
qed

lemma demo_run:
  "scaffoldProject demo_templatesDirectory (demo_options [''home'', ''demo'']) demo_state
   = Inr demo_result"
  by code_simp

lemma demo_fresh:
  "fresh_target (fs demo_state) (projectDirectory (demo_options [''home'', ''demo'']))"
  "\<not> prefix demo_templatesDirectory (projectDirectory (demo_options [''home'', ''demo'']))"
  "\<not> prefix (projectDirectory (demo_options [''home'', ''demo''])) demo_templatesDirectory"
  "distinct_names (fs demo_state)"
  by code_simp+




text \<open>
  Claim C10.  When \<^verbatim>\<open>scaffoldProject\<close> returns from a fresh project directory, the file
  \<open>package.json\<close> of the project holds what \<^verbatim>\<open>createPackageJson\<close> returns for the
  Template Set on the file system at the start, whatever manifests the copies brought;
  \<open>git\<close> is not in the Template Set; and the merged manifest is the same on every file
  system that has the same manifests for the templates of the Template Set, so the
  manifest of the template \<open>git\<close> contributes nothing.
\<close>

theorem scaffold_writes_merged_manifest:
  assumes "fresh_target (fs st) (projectDirectory options)"
    and "\<not> prefix T (projectDirectory options)" and "\<not> prefix (projectDirectory options) T"
    and "scaffoldProject T options st = Inr st'"
  shows "(\<exists>packageJson.
            createPackageJson T (fs st) (name options) (templates options) = Inr packageJson
          \<and> lookup (fs st') (resolve (projectDirectory options) ''package.json'')
              = Some (File (Json packageJson)))
       \<and> ''git'' \<notin> set (templates options)
       \<and> (\<forall>root'. (\<forall>t \<in> set (templates options). manifest_of root' T t = manifest_of (fs st) T t)
            \<longrightarrow> createPackageJson T root' (name options) (templates options)
                = createPackageJson T (fs st) (name options) (templates options))"
proof -
  from scaffoldProject_fresh_result [OF assms] obtain d where
    d: "project_tree (fs st) T options (Dir []) = Inr d"
    and below: "\<forall>r. lookup (fs st') (projectDirectory options @ r) = lookup d r"
    by blast
  from project_tree_steps [OF d] obtain d4 where "tree_manifest (fs st) T options d4 = Inr d"
    by blast
  from tree_manifest_result [OF this] obtain pj es where
    pj: "createPackageJson T (fs st) (name options) (templates options) = Inr pj"
    and d': "d = Dir (AList.update ''package.json'' (File (Json pj)) es)"
    by blast
  have "lookup (fs st') (resolve (projectDirectory options) ''package.json'') = Some (File (Json pj))"
    using below by (simp add: resolve_plain plain_names segments_package_json d' update_conv')
  with pj have 1: "\<exists>packageJson.
            createPackageJson T (fs st) (name options) (templates options) = Inr packageJson
          \<and> lookup (fs st') (resolve (projectDirectory options) ''package.json'')
              = Some (File (Json packageJson))"
    by blast
  have 2: "''git'' \<notin> set (templates options)"
    by (simp add: templates_list basePath_def)
  have 3: "\<forall>root'. (\<forall>t \<in> set (templates options). manifest_of root' T t = manifest_of (fs st) T t)
            \<longrightarrow> createPackageJson T root' (name options) (templates options)
                = createPackageJson T (fs st) (name options) (templates options)"
    by (intro allI impI createPackageJson_cong)
  from 1 2 3 show ?thesis by blast
qed

theorem scaffold_writes_merged_manifest_witness:
  "fresh_target (fs demo_state) (projectDirectory (demo_options [''home'', ''demo'']))
   \<and> \<not> prefix demo_templatesDirectory (projectDirectory (demo_options [''home'', ''demo'']))
   \<and> \<not> prefix (projectDirectory (demo_options [''home'', ''demo''])) demo_templatesDirectory
   \<and> scaffoldProject demo_templatesDirectory (demo_options [''home'', ''demo'']) demo_state
       = Inr demo_result
   \<and> createPackageJson demo_templatesDirectory (fs demo_state) (Some ''demo'')
       [''base'', ''base-ts'', ''prisma'', ''eslint-prettier''] = Inr demo_manifest
   \<and> lookup (fs demo_result) [''home'', ''demo'', ''package.json''] = Some (File (Json demo_manifest))
   \<and> lookup (fs demo_state) [''opt'', ''create-app'', ''templates'', ''git'', ''package.json'']
       = Some (File (Json (JObj [(''scripts'', JObj [(''hook'', JStr ''h'')])])))"
proof -
  have merge: "createPackageJson demo_templatesDirectory (fs demo_state) (Some ''demo'')
       [''base'', ''base-ts'', ''prisma'', ''eslint-prettier''] = Inr demo_manifest"
    by code_simp
  have git: "lookup (fs demo_state) [''opt'', ''create-app'', ''templates'', ''git'', ''package.json'']
       = Some (File (Json (JObj [(''scripts'', JObj [(''hook'', JStr ''h'')])])))"
    by code_simp
  have nm: "name (demo_options [''home'', ''demo'']) = Some ''demo''"
    "templates (demo_options [''home'', ''demo'']) = [''base'', ''base-ts'', ''prisma'', ''eslint-prettier'']"
    "resolve (projectDirectory (demo_options [''home'', ''demo''])) ''package.json''
       = [''home'', ''demo'', ''package.json'']"
    by code_simp+
  from scaffold_writes_merged_manifest [OF demo_fresh(1-3) demo_run, THEN conjunct1]
  have "\<exists>packageJson.
      createPackageJson demo_templatesDirectory (fs demo_state) (Some ''demo'')
        [''base'', ''base-ts'', ''prisma'', ''eslint-prettier''] = Inr packageJson
    \<and> lookup (fs demo_result) [''home'', ''demo'', ''package.json''] = Some (File (Json packageJson))"
    unfolding nm .
  with merge have "lookup (fs demo_result) [''home'', ''demo'', ''package.json''] = Some (File (Json demo_manifest))"
    by simp
  with demo_fresh(1-3) demo_run merge git show ?thesis by simp
qed

text \<open>
  Claim C5.  When the database layer is requested and \<^verbatim>\<open>scaffoldProject\<close> returns from a
  fresh project directory, the template \<open>prisma\<close> has a schema file named after the
  database type in lower case (\<open>postgresql.prisma\<close> for PostgreSQL, \<open>mongodb.prisma\<close> when
  no type is given), and the directory \<open>prisma\<close> of the project holds exactly one entry,
  \<open>schema.prisma\<close>, with the content of that file.  The one thing that can come on top is
  an entry \<open>prisma\<close> of the lint template itself, which the later copy of that template
  lays over the directory.
\<close>

theorem scaffold_copies_schema:
  assumes "fresh_target (fs st) (projectDirectory options)"
    and "\<not> prefix T (projectDirectory options)" and "\<not> prefix (projectDirectory options) T"
    and "distinct_names (fs st)"
    and "scaffoldProject T options st = Inr st'"
    and "prisma options"
  shows "\<exists>c. lookup (fs st) (T @ [''prisma'', schemaName (databaseType options) @ ''.prisma''])
                = Some (File c)
           \<and> resolve T (prismaSchema options)
                = T @ [''prisma'', schemaName (databaseType options) @ ''.prisma'']
           \<and> (case (if eslintAndPrettier options
                     then lookup (fs st) (resolve T ''eslint-prettier'' @ [''prisma'']) else None) of
                 None \<Rightarrow>
                   lookup (fs st') (resolve (projectDirectory options) ''prisma'')
                     = Some (Dir [(''schema.prisma'', File c)])
               | Some s \<Rightarrow>
                   (\<exists>n. copy_node s (Some (Dir [(''schema.prisma'', File c)])) = Inr n
                      \<and> lookup (fs st') (resolve (projectDirectory options) ''prisma'') = Some n))"
proof -
  from scaffoldProject_fresh_result [OF assms(1-3,5)] obtain d where
    d: "project_tree (fs st) T options (Dir []) = Inr d"
    and below: "\<forall>r. lookup (fs st') (projectDirectory options @ r) = lookup d r"
    by blast
  from project_tree_steps [OF d] obtain d2 d3 d4 where
    p: "tree_prisma (fs st) T options d2 = Inr d3" and e: "tree_eslint (fs st) T options d3 = Inr d4"
    and m: "tree_manifest (fs st) T options d4 = Inr d"
    by blast
  from tree_prisma_result [OF assms(6) p] obtain es c where
    src: "lookup (fs st) (T @ [''prisma'', schemaName (databaseType options) @ ''.prisma'']) = Some (File c)"
    and d3: "d3 = Dir (AList.update ''prisma'' (Dir [(''schema.prisma'', File c)]) es)"
    by blast
  have 3: "lookup d3 [''prisma''] = Some (Dir [(''schema.prisma'', File c)])"
    by (simp add: d3 update_conv')
  from tree_manifest_result [OF m] obtain pj es4 where
    "d4 = Dir es4" "d = Dir (AList.update ''package.json'' (File (Json pj)) es4)"
    by blast
  then have 5: "lookup d [''prisma''] = lookup d4 [''prisma'']"
    by (simp add: update_conv')
  have final: "lookup (fs st') (resolve (projectDirectory options) ''prisma'') = lookup d4 [''prisma'']"
    using below by (simp add: resolve_plain plain_names segments_prisma 5)
  let ?lint = "if eslintAndPrettier options
                     then lookup (fs st) (resolve T ''eslint-prettier'' @ [''prisma'']) else None"
  have 4: "case ?lint of
                 None \<Rightarrow> lookup d4 [''prisma''] = Some (Dir [(''schema.prisma'', File c)])
               | Some s \<Rightarrow>
                   (\<exists>n. copy_node s (Some (Dir [(''schema.prisma'', File c)])) = Inr n
                      \<and> lookup d4 [''prisma''] = Some n)"
  proof (cases "eslintAndPrettier options")
    case False
    with e 3 show ?thesis by (simp add: tree_eslint_def)
  next
    case True
    with e obtain t where t: "lookup (fs st) (resolve T ''eslint-prettier'') = Some t"
      and c: "copy_node t (Some d3) = Inr d4"
      by (auto simp: tree_eslint_def copy_template_def split: option.splits)
    have l: "lookup (fs st) (resolve T ''eslint-prettier'' @ [''prisma'']) = lookup t [''prisma'']"
      by (simp add: lookup_append t)
    show ?thesis
    proof (cases "lookup t [''prisma'']")
      case None
      from copy_node_keeps [OF c None] 3 show ?thesis by (simp add: True l None)
    next
      case (Some s)
      from copy_node_entry [OF distinct_names_lookup [OF assms(4) t] c Some] 3
      show ?thesis by (simp add: True l Some)
    qed
  qed
  have "resolve T (prismaSchema options)
      = T @ [''prisma'', schemaName (databaseType options) @ ''.prisma'']"
    by (simp add: resolve_plain plain_prismaSchema segments_prismaSchema)
  with src 4 show ?thesis unfolding final by blast
qed

theorem scaffold_copies_schema_witness:
  "fresh_target (fs demo_state) (projectDirectory (demo_options [''home'', ''demo'']))
   \<and> \<not> prefix demo_templatesDirectory (projectDirectory (demo_options [''home'', ''demo'']))
   \<and> \<not> prefix (projectDirectory (demo_options [''home'', ''demo''])) demo_templatesDirectory
   \<and> distinct_names (fs demo_state)
   \<and> scaffoldProject demo_templatesDirectory (demo_options [''home'', ''demo'']) demo_state
       = Inr demo_result
   \<and> prisma (demo_options [''home'', ''demo''])
   \<and> databaseType (demo_options [''home'', ''demo'']) = Some PostgreSQL
   \<and> lookup (fs demo_state) (demo_templatesDirectory @ [''prisma'', ''postgresql.prisma''])
       = Some (File (Text ''postgresql schema''))
   \<and> lookup (fs demo_result) [''home'', ''demo'', ''prisma'']
       = Some (Dir [(''schema.prisma'', File (Text ''postgresql schema''))])"
proof -
  have opts: "prisma (demo_options [''home'', ''demo''])"
    "databaseType (demo_options [''home'', ''demo'']) = Some PostgreSQL"
    by (simp_all add: demo_options_def)
  have lint: "(if eslintAndPrettier (demo_options [''home'', ''demo''])
       then lookup (fs demo_state) (resolve demo_templatesDirectory ''eslint-prettier'' @ [''prisma''])
       else None) = None"
    by code_simp
  have src: "lookup (fs demo_state) (demo_templatesDirectory @ [''prisma'', ''postgresql.prisma''])
       = Some (File (Text ''postgresql schema''))"
    by code_simp
  have dir: "resolve (projectDirectory (demo_options [''home'', ''demo''])) ''prisma''
       = [''home'', ''demo'', ''prisma'']"
    by code_simp
  have nm: "schemaName (databaseType (demo_options [''home'', ''demo''])) @ ''.prisma'' = ''postgresql.prisma''"
    by code_simp
  from scaffold_copies_schema [OF demo_fresh demo_run opts(1)]
  obtain c where "lookup (fs demo_state) (demo_templatesDirectory @ [''prisma'', ''postgresql.prisma''])
        = Some (File c)"
    and "lookup (fs demo_result) [''home'', ''demo'', ''prisma''] = Some (Dir [(''schema.prisma'', File c)])"
    unfolding lint dir nm by auto
  with src have "lookup (fs demo_result) [''home'', ''demo'', ''prisma'']
       = Some (Dir [(''schema.prisma'', File (Text ''postgresql schema''))])"
    by simp
  with demo_fresh demo_run opts src show ?thesis by (intro conjI)
qed

end
